theory Spec2Isabelle
  imports Complex_Main
begin

section \<open>Data model of paracord.py\<close>

text \<open>
  The embedding follows \<^verbatim>\<open>src/paracord.py\<close> (class \<^verbatim>\<open>Paracord\<close>).

  \<^item> Message ids are the integers \<^verbatim>\<open>int(msg['id'])\<close>; the cursor \<^verbatim>\<open>max_id_cursor\<close>, which the
    source keeps as \<^verbatim>\<open>str(oldest_id - 1)\<close>, is kept as that integer.
  \<^item> Durations handed to \<^verbatim>\<open>time.sleep\<close> are exact rationals (JSON numbers).
  \<^item> Everything the program does to the outside world is recorded in a trace of events:
    every HTTP request that is sent and every blocking sleep, in program order.
  \<^item> The remote service is a parameter: a function from the number of requests sent so far
    and the request to the reply. A reply is either a network failure (the
    \<^verbatim>\<open>requests.exceptions.RequestException\<close> raised by the session) or a response.
  \<^item> The body of a response is taken to be a JSON object, and the \<^verbatim>\<open>id\<close> of a message to be
    a decimal number: the exceptions of \<^verbatim>\<open>response.json()\<close> and of \<^verbatim>\<open>int(msg['id'])\<close> on
    other input are not modelled.
  \<^item> Printing, logging and the progress bar have no effect on the modelled state and are left
    out, as are the batch counters \<^verbatim>\<open>deleted_in_batch\<close>, \<^verbatim>\<open>edited_in_batch\<close>,
    \<^verbatim>\<open>skipped_in_batch\<close> and \<^verbatim>\<open>messages_found\<close>, which are only printed, and the
    \<^verbatim>\<open>start_time\<close>/\<^verbatim>\<open>end_time\<close> entries of the statistics.
  \<^item> The two loops without a bound, the retry of \<^verbatim>\<open>search_messages\<close> and the \<^verbatim>\<open>while\<close> loop of
    \<^verbatim>\<open>process_target\<close>, take fuel. When the fuel runs out they return the state reached so
    far, marked as not returned, so that what holds of every trace also holds of the runs
    that never end.
\<close>

definition MEOW_TEXT :: string where
  "MEOW_TEXT = ''Meow Meow Meow Meow''"

text \<open>One entry of a search page: the fields that \<^verbatim>\<open>process_target\<close> reads with \<^verbatim>\<open>msg.get\<close>.\<close>

record msg =
  hit :: bool
  author_id :: "string option"
  msg_id :: int
  pinned :: bool
  content :: "string option"

text \<open>An HTTP response: status code and the fields of the JSON body that the code reads.\<close>

record response =
  status :: nat
  retry_after :: "rat option"
  err_code :: "int option"
  messages :: "msg list list"

datatype reply = NetworkError | Response response

datatype request =
    Search string string int "int option"
  | Delete string int
  | Edit string int string

datatype event = Call request | Sleep rat

type_synonym server = "nat \<Rightarrow> request \<Rightarrow> reply"

text \<open>The result tags returned by \<^verbatim>\<open>delete_message\<close> and \<^verbatim>\<open>edit_message\<close>.\<close>

datatype outcome = OK | GHOST | SKIP | RETRY | FAILED

record statistics =
  deleted :: nat
  edited :: nat
  failed :: nat
  skipped :: nat
  rate_limited :: nat
  ghosts :: nat

record checkpoint =
  cp_current_target_index :: nat
  cp_stats :: statistics

record settings =
  search_delay :: rat
  delete_delay :: rat
  skip_pinned :: bool
  skip_meowed :: bool
  max_retries :: int
  meow_mode :: string

record target =
  ttype :: string
  guild_id :: string
  channel_id :: string
  enabled :: bool

text \<open>
  The attributes of a \<^verbatim>\<open>Paracord\<close> object, the progress file on disk, and the trace.
  \<open>progress_data\<close> is \<open>None\<close> for the empty dictionary \<^verbatim>\<open>{}\<close> of \<^verbatim>\<open>__init__\<close>.
\<close>

record pstate =
  stats :: statistics
  progress_data :: "checkpoint option"
  current_target_index :: nat
  should_stop :: bool
  progress_file :: "checkpoint option"
  calls :: nat
  trace :: "event list"

section \<open>Network operations\<close>

definition http :: "server \<Rightarrow> request \<Rightarrow> pstate \<Rightarrow> reply \<times> pstate" where
  "http srv rq s = (srv (calls s) rq, s\<lparr>calls := calls s + 1, trace := trace s @ [Call rq]\<rparr>)"

definition sleep :: "rat \<Rightarrow> pstate \<Rightarrow> pstate" where
  "sleep d s = s\<lparr>trace := trace s @ [Sleep d]\<rparr>"

definition count_rate_limited :: "pstate \<Rightarrow> pstate" where
  "count_rate_limited s = s\<lparr>stats := (stats s)\<lparr>rate_limited := rate_limited (stats s) + 1\<rparr>\<rparr>"

definition get_retry_after :: "response \<Rightarrow> rat \<Rightarrow> rat" where
  "get_retry_after r dflt = (case retry_after r of Some w \<Rightarrow> w | None \<Rightarrow> dflt)"

text \<open>
  \<^verbatim>\<open>delete_message\<close> (lines 434-492). The \<^verbatim>\<open>except RequestException\<close> branch is the
  \<open>NetworkError\<close> reply.
\<close>

definition delete_message :: "server \<Rightarrow> string \<Rightarrow> int \<Rightarrow> int \<Rightarrow> pstate \<Rightarrow> outcome \<times> pstate" where
  "delete_message srv channel message_id attempt s =
     (case http srv (Delete channel message_id) s of
        (NetworkError, s1) \<Rightarrow> (if attempt < 3 then RETRY else FAILED, s1)
      | (Response r, s1) \<Rightarrow>
          if status r = 204 then (OK, s1)
          else if status r = 429 then
            (let wait_time = get_retry_after r 3 * 2
             in (RETRY, sleep wait_time (count_rate_limited s1)))
          else if status r = 404 then (GHOST, s1)
          else if status r = 400 then
            (if err_code r = Some 50083 then (SKIP, s1) else (FAILED, s1))
          else if status r = 403 then (SKIP, s1)
          else (FAILED, s1))"

text \<open>\<^verbatim>\<open>edit_message\<close> (lines 494-550).\<close>

definition edit_message ::
  "server \<Rightarrow> string \<Rightarrow> int \<Rightarrow> string \<Rightarrow> int \<Rightarrow> pstate \<Rightarrow> outcome \<times> pstate" where
  "edit_message srv channel message_id new_content attempt s =
     (case http srv (Edit channel message_id new_content) s of
        (NetworkError, s1) \<Rightarrow> (if attempt < 3 then RETRY else FAILED, s1)
      | (Response r, s1) \<Rightarrow>
          if status r = 200 then (OK, s1)
          else if status r = 429 then
            (let wait_time = get_retry_after r 3 * 2
             in (RETRY, sleep wait_time (count_rate_limited s1)))
          else if status r = 404 then (GHOST, s1)
          else if status r = 400 then
            (if err_code r = Some 50083 then (SKIP, s1) else (FAILED, s1))
          else if status r = 403 then (SKIP, s1)
          else (FAILED, s1))"

text \<open>
  \<^verbatim>\<open>search_messages\<close> (lines 374-432) calls itself again after a 429 or a 202 response, with
  no bound. The first argument is fuel: \<open>Timeout\<close> stands for a search that has not returned
  within that many requests, and carries the state reached. \<open>RequestException\<close> is the
  exception of the session or of \<^verbatim>\<open>raise_for_status\<close> (status 400 to 599).
\<close>

datatype search_result = Timeout | RequestException | Page response

fun search_messages ::
  "nat \<Rightarrow> server \<Rightarrow> string \<Rightarrow> string \<Rightarrow> int \<Rightarrow> int option \<Rightarrow> pstate \<Rightarrow> search_result \<times> pstate" where
  "search_messages 0 srv guild channel ofs max_id s = (Timeout, s)"
| "search_messages (Suc n) srv guild channel ofs max_id s =
     (case http srv (Search guild channel ofs max_id) s of
        (NetworkError, s1) \<Rightarrow> (RequestException, s1)
      | (Response r, s1) \<Rightarrow>
          if status r = 429 then
            (let wait_time = get_retry_after r 40 * 2
             in search_messages n srv guild channel ofs max_id
                  (sleep wait_time (count_rate_limited s1)))
          else if status r = 202 then
            search_messages n srv guild channel ofs max_id (sleep (get_retry_after r 5) s1)
          else if 400 \<le> status r \<and> status r < 600 then (RequestException, s1)
          else (Page r, s1))"

section \<open>The action executor: the body of the message loop of \<^verbatim>\<open>process_target\<close>\<close>

definition count_edited :: "pstate \<Rightarrow> pstate" where
  "count_edited s = s\<lparr>stats := (stats s)\<lparr>edited := edited (stats s) + 1\<rparr>\<rparr>"

definition count_deleted :: "pstate \<Rightarrow> pstate" where
  "count_deleted s = s\<lparr>stats := (stats s)\<lparr>deleted := deleted (stats s) + 1\<rparr>\<rparr>"

definition count_ghost :: "pstate \<Rightarrow> pstate" where
  "count_ghost s = s\<lparr>stats := (stats s)\<lparr>ghosts := ghosts (stats s) + 1\<rparr>\<rparr>"

definition count_skipped :: "pstate \<Rightarrow> pstate" where
  "count_skipped s = s\<lparr>stats := (stats s)\<lparr>skipped := skipped (stats s) + 1\<rparr>\<rparr>"

definition count_failed :: "pstate \<Rightarrow> pstate" where
  "count_failed s = s\<lparr>stats := (stats s)\<lparr>failed := failed (stats s) + 1\<rparr>\<rparr>"

text \<open>
  The edit loop (lines 710-729), \<^verbatim>\<open>for attempt in range(1, max_retries + 1)\<close>, as a
  recursion over the attempt numbers still to come. It returns
  \<open>(edit_success, was_ghost)\<close>.
\<close>

fun edit_loop ::
  "server \<Rightarrow> settings \<Rightarrow> string \<Rightarrow> int \<Rightarrow> int list \<Rightarrow> pstate \<Rightarrow> (bool \<times> bool) \<times> pstate" where
  "edit_loop srv st channel message_id [] s = ((False, False), s)"
| "edit_loop srv st channel message_id (attempt # rest) s =
     (case edit_message srv channel message_id MEOW_TEXT attempt s of
        (OK, s1) \<Rightarrow> ((True, False), count_edited s1)
      | (GHOST, s1) \<Rightarrow> ((False, True), count_ghost s1)
      | (SKIP, s1) \<Rightarrow> ((False, False), s1)
      | (FAILED, s1) \<Rightarrow> ((False, False), s1)
      | (RETRY, s1) \<Rightarrow>
          if attempt < max_retries st
          then edit_loop srv st channel message_id rest (sleep 1 s1)
          else ((False, False), s1))"

text \<open>
  The delete loop (lines 749-776). It takes and returns \<open>was_ghost\<close>.
\<close>

fun delete_loop ::
  "server \<Rightarrow> settings \<Rightarrow> string \<Rightarrow> int \<Rightarrow> int list \<Rightarrow> bool \<Rightarrow> pstate \<Rightarrow> bool \<times> pstate" where
  "delete_loop srv st channel message_id [] was_ghost s = (was_ghost, s)"
| "delete_loop srv st channel message_id (attempt # rest) was_ghost s =
     (case delete_message srv channel message_id attempt s of
        (OK, s1) \<Rightarrow> (was_ghost, count_deleted s1)
      | (GHOST, s1) \<Rightarrow> (True, count_ghost s1)
      | (SKIP, s1) \<Rightarrow> (was_ghost, count_skipped s1)
      | (FAILED, s1) \<Rightarrow> (was_ghost, count_failed s1)
      | (RETRY, s1) \<Rightarrow>
          if attempt < max_retries st
          then delete_loop srv st channel message_id rest was_ghost (sleep 1 s1)
          else (was_ghost, count_failed s1))"

text \<open>Lines 740-782: what follows the edit step for one message.\<close>

definition delete_step :: "server \<Rightarrow> settings \<Rightarrow> string \<Rightarrow> int \<Rightarrow> bool \<Rightarrow> pstate \<Rightarrow> pstate" where
  "delete_step srv st channel message_id was_ghost s =
     (if meow_mode st = ''edit_only''
      then (if \<not> was_ghost then sleep (delete_delay st) s else s)
      else
        (case delete_loop srv st channel message_id [1 .. max_retries st] was_ghost s of
           (was_ghost', s1) \<Rightarrow> if \<not> was_ghost' then sleep (delete_delay st) s1 else s1))"

text \<open>Lines 704-782: one message of the batch.\<close>

definition process_message :: "server \<Rightarrow> settings \<Rightarrow> string \<Rightarrow> msg \<Rightarrow> pstate \<Rightarrow> pstate" where
  "process_message srv st channel m s =
     (if meow_mode st \<noteq> ''off'' \<and> content m \<noteq> Some MEOW_TEXT
      then
        (case edit_loop srv st channel (msg_id m) [1 .. max_retries st] s of
           ((edit_success, was_ghost), s1) \<Rightarrow>
             if was_ghost then s1
             else delete_step srv st channel (msg_id m) was_ghost
                    (if edit_success then sleep (delete_delay st) s1 else s1))
      else delete_step srv st channel (msg_id m) False s)"

text \<open>\<^verbatim>\<open>oldest_processed_id\<close>, lines 700-702.\<close>

fun older :: "int \<Rightarrow> int option \<Rightarrow> int option" where
  "older i None = Some i"
| "older i (Some oldest) = (if i < oldest then Some i else Some oldest)"

text \<open>The message loop, lines 692-782; it returns \<^verbatim>\<open>oldest_processed_id\<close>.\<close>

fun process_batch ::
  "server \<Rightarrow> settings \<Rightarrow> string \<Rightarrow> msg list \<Rightarrow> int option \<Rightarrow> pstate \<Rightarrow> int option \<times> pstate" where
  "process_batch srv st channel [] oldest s = (oldest, s)"
| "process_batch srv st channel (m # ms) oldest s =
     (if should_stop s then (oldest, s)
      else process_batch srv st channel ms (older (msg_id m) oldest)
             (process_message srv st channel m s))"

section \<open>The cursor paginator: the \<^verbatim>\<open>while\<close> loop of \<^verbatim>\<open>process_target\<close>\<close>

record cursor =
  max_id_cursor :: "int option"
  offset :: int
  empty_pages :: nat

definition MAX_EMPTY_PAGES :: nat where
  "MAX_EMPTY_PAGES = 3"

text \<open>Lines 618-631: the two lists built from a page.\<close>

definition all_hit_messages :: "string \<Rightarrow> msg list list \<Rightarrow> msg list" where
  "all_hit_messages author groups =
     filter (\<lambda>m. hit m \<and> author_id m = Some author) (concat groups)"

definition eligible :: "settings \<Rightarrow> string \<Rightarrow> msg list list \<Rightarrow> msg list" where
  "eligible st author groups =
     filter (\<lambda>m. \<not> (skip_pinned st \<and> pinned m) \<and> \<not> (skip_meowed st \<and> content m = Some MEOW_TEXT))
       (all_hit_messages author groups)"

text \<open>Lines 635-641: the oldest id among all hits of the page, whoever wrote them.\<close>

definition oldest_hit :: "msg list list \<Rightarrow> int option" where
  "oldest_hit groups = fold (\<lambda>m oldest. if hit m then older (msg_id m) oldest else oldest) (concat groups) None"

text \<open>\<^verbatim>\<open>min(int(msg['id']) for msg in ms)\<close> on a list that the caller knows is not empty.\<close>

definition min_id :: "msg list \<Rightarrow> int" where
  "min_id ms = Min (set (map msg_id ms))"

definition advance :: "int \<Rightarrow> cursor \<Rightarrow> cursor" where
  "advance oldest_id cur = cur\<lparr>max_id_cursor := Some (oldest_id - 1), offset := 0\<rparr>"

datatype control = Continue | Break

text \<open>
  Lines 601-809: one turn of the \<^verbatim>\<open>while\<close> loop after the search has returned a page.
  \<^verbatim>\<open>if oldest_id:\<close> is false for \<^verbatim>\<open>None\<close> and for \<^verbatim>\<open>0\<close>.
\<close>

definition handle_page ::
  "server \<Rightarrow> settings \<Rightarrow> string \<Rightarrow> string \<Rightarrow> bool \<Rightarrow> response \<Rightarrow> cursor \<Rightarrow> pstate
     \<Rightarrow> control \<times> cursor \<times> pstate" where
  "handle_page srv st author channel dry_run r cur s =
     (let message_groups = messages r in
      if message_groups = [] then
        (let cur1 = cur\<lparr>empty_pages := empty_pages cur + 1\<rparr> in
         if empty_pages cur1 \<ge> MAX_EMPTY_PAGES then (Break, cur1, s)
         else (Continue, cur1, sleep (search_delay st) s))
      else
        (let cur1 = cur\<lparr>empty_pages := 0\<rparr>;
             all_hits = all_hit_messages author message_groups;
             msgs = eligible st author message_groups in
         if msgs = [] \<and> all_hits = [] then
           (let cur2 = (case oldest_hit message_groups of
                          None \<Rightarrow> cur1\<lparr>offset := offset cur1 + int (length message_groups)\<rparr>
                        | Some oldest_id \<Rightarrow>
                            if oldest_id \<noteq> 0 then advance oldest_id cur1
                            else cur1\<lparr>offset := offset cur1 + int (length message_groups)\<rparr>)
            in (Continue, cur2, sleep (search_delay st) s))
         else if msgs = [] then
           (Continue, advance (min_id all_hits) cur1, sleep (search_delay st) s)
         else if dry_run then
           (Continue, advance (min_id msgs) cur1, sleep (search_delay st) s)
         else
           (case process_batch srv st channel msgs None s of
              (oldest_processed_id, s1) \<Rightarrow>
                (Continue,
                 (case oldest_processed_id of
                    None \<Rightarrow> cur1
                  | Some oldest \<Rightarrow> advance oldest cur1),
                 sleep (search_delay st) s1))))"

text \<open>
  The \<^verbatim>\<open>while not self.should_stop\<close> loop (line 589). It has no bound of its own, so the first
  argument is fuel: \<open>OutOfFuel\<close> stands for a loop still running after that many turns, and
  the state and cursor reached are returned with it. An exception of the search ends the loop
  (lines 597-599).
\<close>

datatype loop_end = Returned | OutOfFuel

fun walk ::
  "nat \<Rightarrow> server \<Rightarrow> settings \<Rightarrow> string \<Rightarrow> string \<Rightarrow> string \<Rightarrow> bool \<Rightarrow> cursor \<Rightarrow> pstate
     \<Rightarrow> loop_end \<times> cursor \<times> pstate" where
  "walk 0 srv st author guild channel dry_run cur s = (OutOfFuel, cur, s)"
| "walk (Suc n) srv st author guild channel dry_run cur s =
     (if should_stop s then (Returned, cur, s)
      else
        (case search_messages (Suc n) srv guild channel (offset cur) (max_id_cursor cur) s of
           (Timeout, s1) \<Rightarrow> (OutOfFuel, cur, s1)
         | (RequestException, s1) \<Rightarrow> (Returned, cur, s1)
         | (Page r, s1) \<Rightarrow>
             (case handle_page srv st author channel dry_run r cur s1 of
                (Break, cur1, s2) \<Rightarrow> (Returned, cur1, s2)
              | (Continue, cur1, s2) \<Rightarrow> walk n srv st author guild channel dry_run cur1 s2)))"

text \<open>Lines 574-578: direct and group conversations are searched under \<^verbatim>\<open>"@me"\<close>.\<close>

definition guild_of :: "target \<Rightarrow> string" where
  "guild_of tgt = (if ttype tgt = ''dm'' \<or> ttype tgt = ''group_dm'' then ''@me'' else guild_id tgt)"

text \<open>\<^verbatim>\<open>process_target\<close> (lines 552-809).\<close>

definition process_target ::
  "nat \<Rightarrow> server \<Rightarrow> settings \<Rightarrow> string \<Rightarrow> target \<Rightarrow> bool \<Rightarrow> pstate \<Rightarrow> loop_end \<times> cursor \<times> pstate" where
  "process_target fuel srv st author tgt dry_run s =
     walk fuel srv st author (guild_of tgt) (channel_id tgt) dry_run
       \<lparr>max_id_cursor = None, offset = 0, empty_pages = 0\<rparr> s"

section \<open>The progress store and the batch runner\<close>

text \<open>\<^verbatim>\<open>__init__\<close> (lines 87-108), given what the progress file holds when the process starts.\<close>

definition new_paracord :: "checkpoint option \<Rightarrow> pstate" where
  "new_paracord file =
     \<lparr>stats = \<lparr>deleted = 0, edited = 0, failed = 0, skipped = 0, rate_limited = 0, ghosts = 0\<rparr>,
      progress_data = None, current_target_index = 0, should_stop = False,
      progress_file = file, calls = 0, trace = []\<rparr>"

text \<open>\<^verbatim>\<open>save_progress\<close> (lines 913-924): the file is replaced as a whole.\<close>

definition save_progress :: "pstate \<Rightarrow> pstate" where
  "save_progress s =
     s\<lparr>progress_file :=
         Some \<lparr>cp_current_target_index = current_target_index s, cp_stats = stats s\<rparr>\<rparr>"

text \<open>
  The loop over the targets (lines 896-905),
  \<^verbatim>\<open>for i in range(self.current_target_index, len(targets))\<close>, as a recursion over the indices
  still to come; every index is below \<open>length targets\<close>.
\<close>

fun target_loop ::
  "nat \<Rightarrow> server \<Rightarrow> settings \<Rightarrow> string \<Rightarrow> target list \<Rightarrow> bool \<Rightarrow> nat list \<Rightarrow> pstate
     \<Rightarrow> loop_end \<times> pstate" where
  "target_loop fuel srv st author targets dry_run [] s = (Returned, s)"
| "target_loop fuel srv st author targets dry_run (i # rest) s =
     (if should_stop s then (Returned, s)
      else
        (case process_target fuel srv st author (targets ! i) dry_run s of
           (OutOfFuel, cur, s1) \<Rightarrow> (OutOfFuel, s1)
         | (Returned, cur, s1) \<Rightarrow>
             target_loop fuel srv st author targets dry_run rest
               (save_progress (s1\<lparr>current_target_index := i + 1\<rparr>))))"

datatype run_end = Finished | SystemExit int | Unfinished

text \<open>
  \<^verbatim>\<open>run_batch\<close> (lines 811-911). The configuration file is the pair of its settings and its
  targets. Loading and validating the token (lines 838-846) is outside the model: \<open>author\<close>
  is the id of the validated user. \<open>answer\<close> is what the user types at the confirmation
  prompt, lower-cased and stripped. \<open>Unfinished\<close> stands for a run whose fuel ran out.
\<close>

text \<open>Lines 826-836: the command line overrides the mode and the skip flag of the file.\<close>

definition effective_settings :: "settings \<Rightarrow> string option \<Rightarrow> bool option \<Rightarrow> settings" where
  "effective_settings file_settings meow_arg skip_meowed_arg =
     (let st1 = (case meow_arg of None \<Rightarrow> file_settings
                 | Some m \<Rightarrow> file_settings\<lparr>meow_mode := m\<rparr>)
      in case skip_meowed_arg of None \<Rightarrow> st1 | Some b \<Rightarrow> st1\<lparr>skip_meowed := b\<rparr>)"

definition run_batch ::
  "nat \<Rightarrow> server \<Rightarrow> settings \<Rightarrow> target list \<Rightarrow> string \<Rightarrow> bool \<Rightarrow> bool \<Rightarrow> bool \<Rightarrow> string
     \<Rightarrow> string option \<Rightarrow> bool option \<Rightarrow> pstate \<Rightarrow> run_end \<times> pstate" where
  "run_batch fuel srv file_settings file_targets author dry_run resume skip_confirm answer
       meow_arg skip_meowed_arg s =
     (let st = effective_settings file_settings meow_arg skip_meowed_arg;
          s1 = (case progress_file s of
                  None \<Rightarrow> s
                | Some cp \<Rightarrow>
                    if resume
                    then s\<lparr>progress_data := Some cp,
                           current_target_index := cp_current_target_index cp\<rparr>
                    else s);
          targets = filter enabled file_targets
      in if targets = [] then (SystemExit 1, s1)
         else if \<not> dry_run \<and> \<not> skip_confirm \<and> answer \<noteq> ''yes'' then (SystemExit 0, s1)
         else
           (case target_loop fuel srv st author targets dry_run
                   [current_target_index s1 ..< length targets] s1 of
              (OutOfFuel, s2) \<Rightarrow> (Unfinished, s2)
            | (Returned, s2) \<Rightarrow> (Finished, s2)))"

section \<open>Observations on traces and statistics\<close>

text \<open>The requests of a trace that delete a message, and those that edit one.\<close>

fun is_delete :: "event \<Rightarrow> bool" where
  "is_delete (Call (Delete c i)) = True"
| "is_delete e = False"

fun is_edit :: "event \<Rightarrow> bool" where
  "is_edit (Call (Edit c i t)) = True"
| "is_edit e = False"

text \<open>The number of outcomes counted: the four counters that the deletion step feeds.\<close>

definition outcome_total :: "statistics \<Rightarrow> nat" where
  "outcome_total st = deleted st + ghosts st + skipped st + failed st"

text \<open>
  A response that \<^verbatim>\<open>search_messages\<close> hands to its caller: neither a 429 nor a 202, and no
  error status.
\<close>

definition delivers :: "response \<Rightarrow> bool" where
  "delivers r \<longleftrightarrow> status r \<noteq> 429 \<and> status r \<noteq> 202 \<and> \<not> (400 \<le> status r \<and> status r < 600)"

text \<open>
  \<open>emits A s s'\<close>: the trace of \<open>s'\<close> is the trace of \<open>s\<close> followed by events of \<open>A\<close> only.
  The sets below bound the events of each part of the program.
\<close>

definition emits :: "event set \<Rightarrow> pstate \<Rightarrow> pstate \<Rightarrow> bool" where
  "emits A s s' \<longleftrightarrow> (\<exists>evs. trace s' = trace s @ evs \<and> set evs \<subseteq> A)"

definition same_outcomes :: "pstate \<Rightarrow> pstate \<Rightarrow> bool" where
  "same_outcomes s s' \<longleftrightarrow>
     deleted (stats s') = deleted (stats s) \<and> edited (stats s') = edited (stats s) \<and>
     failed (stats s') = failed (stats s) \<and> skipped (stats s') = skipped (stats s) \<and>
     ghosts (stats s') = ghosts (stats s)"

definition message_events :: "settings \<Rightarrow> string \<Rightarrow> int \<Rightarrow> event set" where
  "message_events st ch i =
     range Sleep \<union> (if meow_mode st = ''off'' then {} else {Call (Edit ch i MEOW_TEXT)})
       \<union> (if meow_mode st = ''edit_only'' then {} else {Call (Delete ch i)})"

definition batch_events :: "settings \<Rightarrow> string \<Rightarrow> msg list \<Rightarrow> event set" where
  "batch_events st ch ms = range Sleep \<union> (\<Union>m \<in> set ms. message_events st ch (msg_id m))"

definition page_events :: "settings \<Rightarrow> string \<Rightarrow> string \<Rightarrow> bool \<Rightarrow> response \<Rightarrow> event set" where
  "page_events st a ch dry r =
     (if dry then range Sleep else batch_events st ch (eligible st a (messages r)))"

definition walk_events :: "settings \<Rightarrow> string \<Rightarrow> bool \<Rightarrow> event set" where
  "walk_events st ch dry =
     range Sleep \<union> {e. \<exists>g c ofs mx. e = Call (Search g c ofs mx)}
       \<union> (if dry then {} else (\<Union>i. message_events st ch i))"

definition run_events :: "settings \<Rightarrow> bool \<Rightarrow> event set" where
  "run_events st dry = (\<Union>ch. walk_events st ch dry)"







section \<open>Sample inputs\<close>

text \<open>
  The settings written by \<^verbatim>\<open>create_config_interactive\<close>, a user with id 42, a direct
  conversation, and a few servers.
\<close>

definition settings0 :: settings where
  "settings0 = \<lparr>search_delay = 10, delete_delay = 1, skip_pinned = True, skip_meowed = False,
                 max_retries = 3, meow_mode = ''off''\<rparr>"

definition own_msg :: "int \<Rightarrow> string \<Rightarrow> msg" where
  "own_msg i txt = \<lparr>hit = True, author_id = Some ''42'', msg_id = i, pinned = False, content = Some txt\<rparr>"

definition plain :: "nat \<Rightarrow> response" where
  "plain code = \<lparr>status = code, retry_after = None, err_code = None, messages = []\<rparr>"

definition page :: "msg list list \<Rightarrow> response" where
  "page groups = \<lparr>status = 200, retry_after = None, err_code = None, messages = groups\<rparr>"

definition dm_target :: target where
  "dm_target = \<lparr>ttype = ''dm'', guild_id = [], channel_id = ''7'', enabled = True\<rparr>"

definition limited :: "rat \<Rightarrow> response" where
  "limited w = \<lparr>status = 429, retry_after = Some w, err_code = None, messages = []\<rparr>"

definition indexing :: "rat \<Rightarrow> response" where
  "indexing w = \<lparr>status = 202, retry_after = Some w, err_code = None, messages = []\<rparr>"

text \<open>One page of three own messages for a search without cursor, empty pages after that.\<close>

definition one_page_server :: server where
  "one_page_server n rq =
     (case rq of
        Search g c ofs mx \<Rightarrow>
          (case mx of
             None \<Rightarrow> Response (page [[own_msg 300 ''a''], [own_msg 200 ''b''], [own_msg 100 ''c'']])
           | Some c \<Rightarrow> Response (page []))
      | Delete c i \<Rightarrow> Response (plain 204)
      | Edit c i t \<Rightarrow> Response (plain 200))"


text \<open>Edits are forbidden (403); deletions succeed.\<close>

definition forbidding_server :: server where
  "forbidding_server n rq =
     (case rq of
        Search g c ofs mx \<Rightarrow> Response (page [])
      | Delete c i \<Rightarrow> Response (plain 204)
      | Edit c i t \<Rightarrow> Response (plain 403))"

definition busy_server :: server where
  "busy_server n rq = Response (limited 5)"

definition indexing_server :: server where
  "indexing_server n rq = Response (indexing 5)"

definition silent_server :: server where
  "silent_server n rq = Response (page [])"

text \<open>Every message is already gone (404).\<close>

definition vanished_server :: server where
  "vanished_server n rq =
     (case rq of
        Search g c ofs mx \<Rightarrow> Response (page [])
      | Delete c i \<Rightarrow> Response (plain 404)
      | Edit c i t \<Rightarrow> Response (plain 404))"

text \<open>A checkpoint taken after two of five targets, with ten deletions counted.\<close>

definition saved :: checkpoint where
  "saved = \<lparr>cp_current_target_index = 2,
            cp_stats = \<lparr>deleted = 10, edited = 0, failed = 0, skipped = 0, rate_limited = 0,
                        ghosts = 0\<rparr>\<rparr>"

definition five_targets :: "target list" where
  "five_targets = replicate 5 dm_target"

section \<open>Auxiliary lemmas\<close>

subsection \<open>Traces that only grow\<close>

lemma emits_refl: "emits A s s"
  by (simp add: emits_def)

lemma emits_same_trace: "trace s' = trace s \<Longrightarrow> emits A s s'"
  by (simp add: emits_def)

lemma emits_trans: "emits A s s1 \<Longrightarrow> emits A s1 s2 \<Longrightarrow> emits A s s2"
  by (auto simp: emits_def)

lemma emits_mono: "emits A s s' \<Longrightarrow> A \<subseteq> B \<Longrightarrow> emits B s s'"
  by (auto simp: emits_def)

lemma emits_filter:
  "emits A s s' \<Longrightarrow> (\<And>e. e \<in> A \<Longrightarrow> \<not> P e) \<Longrightarrow> filter P (trace s') = filter P (trace s)"
  by (fastforce simp: emits_def filter_empty_conv)

lemma sleep_simps [simp]:
  "trace (sleep d s) = trace s @ [Sleep d]"
  "stats (sleep d s) = stats s"
  "should_stop (sleep d s) = should_stop s"
  "calls (sleep d s) = calls s"
  by (simp_all add: sleep_def)

lemma emits_sleep: "Sleep d \<in> A \<Longrightarrow> emits A s (sleep d s)"
  by (simp add: emits_def)

lemma count_simps [simp]:
  "trace (count_rate_limited s) = trace s" "should_stop (count_rate_limited s) = should_stop s"
  "calls (count_rate_limited s) = calls s"
  "trace (count_edited s) = trace s" "should_stop (count_edited s) = should_stop s"
  "calls (count_edited s) = calls s"
  "trace (count_deleted s) = trace s" "should_stop (count_deleted s) = should_stop s"
  "calls (count_deleted s) = calls s"
  "trace (count_ghost s) = trace s" "should_stop (count_ghost s) = should_stop s"
  "calls (count_ghost s) = calls s"
  "trace (count_skipped s) = trace s" "should_stop (count_skipped s) = should_stop s"
  "calls (count_skipped s) = calls s"
  "trace (count_failed s) = trace s" "should_stop (count_failed s) = should_stop s"
  "calls (count_failed s) = calls s"
  by (simp_all add: count_rate_limited_def count_edited_def count_deleted_def count_ghost_def
        count_skipped_def count_failed_def)

lemma http_simps [simp]:
  "fst (http srv rq s) = srv (calls s) rq"
  "trace (snd (http srv rq s)) = trace s @ [Call rq]"
  "stats (snd (http srv rq s)) = stats s"
  "should_stop (snd (http srv rq s)) = should_stop s"
  "calls (snd (http srv rq s)) = calls s + 1"
  by (simp_all add: http_def)

lemma http_cases:
  obtains s1 where "http srv rq s = (srv (calls s) rq, s1)" "trace s1 = trace s @ [Call rq]"
    "stats s1 = stats s" "should_stop s1 = should_stop s" "calls s1 = calls s + 1"
  by (simp add: http_def)

subsection \<open>What the network operations and the retry loops emit\<close>

lemma delete_message_frame:
  assumes "delete_message srv ch i a s = (res, s')"
  shows "emits (insert (Call (Delete ch i)) (range Sleep)) s s'"
    and "same_outcomes s s'" and "should_stop s' = should_stop s"
  using assms
  by (auto simp: delete_message_def http_def emits_def same_outcomes_def count_rate_limited_def
        sleep_def split: reply.splits if_splits)

lemma edit_message_frame:
  assumes "edit_message srv ch i new_text a s = (res, s')"
  shows "emits (insert (Call (Edit ch i new_text)) (range Sleep)) s s'"
    and "same_outcomes s s'" and "should_stop s' = should_stop s"
  using assms
  by (auto simp: edit_message_def http_def emits_def same_outcomes_def count_rate_limited_def
        sleep_def split: reply.splits if_splits)

lemma search_messages_frame:
  "search_messages n srv g ch ofs mx s = (res, s') \<Longrightarrow>
     emits (insert (Call (Search g ch ofs mx)) (range Sleep)) s s' \<and>
     same_outcomes s s' \<and> should_stop s' = should_stop s"
proof (induction n arbitrary: s)
  case 0
  then show ?case by (simp add: emits_refl same_outcomes_def)
next
  case (Suc n)
  let ?A = "insert (Call (Search g ch ofs mx)) (range Sleep)"
  obtain s1 where h: "http srv (Search g ch ofs mx) s = (srv (calls s) (Search g ch ofs mx), s1)"
    and t: "trace s1 = trace s @ [Call (Search g ch ofs mx)]" and st: "stats s1 = stats s"
    and ss: "should_stop s1 = should_stop s"
    by (rule http_cases)
  have e1: "emits ?A s s1" using t by (simp add: emits_def)
  show ?case
  proof (cases "srv (calls s) (Search g ch ofs mx)")
    case NetworkError
    with Suc.prems h e1 st ss show ?thesis by (auto simp: same_outcomes_def)
  next
    case (Response r)
    consider (limited) "status r = 429" | (indexing) "status r \<noteq> 429" "status r = 202"
      | (other) "status r \<noteq> 429" "status r \<noteq> 202" by blast
    then show ?thesis
    proof cases
      case limited
      let ?s2 = "sleep (get_retry_after r 40 * 2) (count_rate_limited s1)"
      from Suc.prems h Response limited
      have "search_messages n srv g ch ofs mx ?s2 = (res, s')" by simp
      from Suc.IH [OF this]
      have "emits ?A ?s2 s'" "same_outcomes ?s2 s'" "should_stop s' = should_stop ?s2" by simp_all
      moreover have "emits ?A s1 ?s2" by (simp add: emits_def)
      moreover have "same_outcomes s ?s2" using st by (simp add: same_outcomes_def count_rate_limited_def)
      ultimately show ?thesis using e1 ss
        by (auto simp: same_outcomes_def intro: emits_trans)
    next
      case indexing
      let ?s2 = "sleep (get_retry_after r 5) s1"
      from Suc.prems h Response indexing
      have "search_messages n srv g ch ofs mx ?s2 = (res, s')" by simp
      from Suc.IH [OF this]
      have "emits ?A ?s2 s'" "same_outcomes ?s2 s'" "should_stop s' = should_stop ?s2" by simp_all
      moreover have "emits ?A s1 ?s2" by (simp add: emits_def)
      moreover have "same_outcomes s ?s2" using st by (simp add: same_outcomes_def)
      ultimately show ?thesis using e1 ss
        by (auto simp: same_outcomes_def intro: emits_trans)
    next
      case other
      with Suc.prems h Response e1 st ss show ?thesis
        by (auto simp: same_outcomes_def split: if_splits)
    qed
  qed
qed

lemma edit_loop_frame:
  "edit_loop srv st ch i as s = (res, s') \<Longrightarrow>
     emits (insert (Call (Edit ch i MEOW_TEXT)) (range Sleep)) s s' \<and> should_stop s' = should_stop s"
proof (induction as arbitrary: s)
  case Nil
  then show ?case by (simp add: emits_refl)
next
  case (Cons a as)
  let ?A = "insert (Call (Edit ch i MEOW_TEXT)) (range Sleep)"
  obtain r s1 where em: "edit_message srv ch i MEOW_TEXT a s = (r, s1)" by force
  note f = edit_message_frame [OF em]
  show ?case
  proof (cases "r = RETRY \<and> a < max_retries st")
    case True
    with Cons.prems em have "edit_loop srv st ch i as (sleep 1 s1) = (res, s')" by simp
    from Cons.IH [OF this] have "emits ?A (sleep 1 s1) s'" "should_stop s' = should_stop s1"
      by simp_all
    moreover have "emits ?A s1 (sleep 1 s1)" by (simp add: emits_sleep)
    ultimately show ?thesis using f by (auto intro: emits_trans)
  next
    case False
    with Cons.prems em have "trace s' = trace s1 \<and> should_stop s' = should_stop s1"
      by (cases r) (auto split: if_splits)
    then show ?thesis using f by (auto intro: emits_trans emits_same_trace)
  qed
qed

lemma delete_loop_frame:
  "delete_loop srv st ch i as wg s = (res, s') \<Longrightarrow>
     emits (insert (Call (Delete ch i)) (range Sleep)) s s' \<and> should_stop s' = should_stop s"
proof (induction as arbitrary: s)
  case Nil
  then show ?case by (simp add: emits_refl)
next
  case (Cons a as)
  let ?A = "insert (Call (Delete ch i)) (range Sleep)"
  obtain r s1 where dm: "delete_message srv ch i a s = (r, s1)" by force
  note f = delete_message_frame [OF dm]
  show ?case
  proof (cases "r = RETRY \<and> a < max_retries st")
    case True
    with Cons.prems dm have "delete_loop srv st ch i as wg (sleep 1 s1) = (res, s')" by simp
    from Cons.IH [OF this] have "emits ?A (sleep 1 s1) s'" "should_stop s' = should_stop s1"
      by simp_all
    moreover have "emits ?A s1 (sleep 1 s1)" by (simp add: emits_sleep)
    ultimately show ?thesis using f by (auto intro: emits_trans)
  next
    case False
    with Cons.prems dm have "trace s' = trace s1 \<and> should_stop s' = should_stop s1"
      by (cases r) (auto split: if_splits)
    then show ?thesis using f by (auto intro: emits_trans emits_same_trace)
  qed
qed

lemma delete_step_frame:
  "emits (range Sleep \<union> (if meow_mode st = ''edit_only'' then {} else {Call (Delete ch i)})) s
     (delete_step srv st ch i wg s)
   \<and> should_stop (delete_step srv st ch i wg s) = should_stop s"
proof (cases "meow_mode st = ''edit_only''")
  case True
  then show ?thesis by (simp add: delete_step_def emits_refl emits_sleep)
next
  case False
  obtain wg' s1 where dl: "delete_loop srv st ch i [1 .. max_retries st] wg s = (wg', s1)"
    by force
  from delete_loop_frame [OF dl]
  have "emits (insert (Call (Delete ch i)) (range Sleep)) s s1" "should_stop s1 = should_stop s"
    by simp_all
  moreover have "emits (insert (Call (Delete ch i)) (range Sleep)) s1 (sleep (delete_delay st) s1)"
    by (simp add: emits_sleep)
  ultimately show ?thesis using False dl
    by (auto simp: delete_step_def Un_commute intro: emits_trans)
qed

lemma process_message_frame:
  "emits (message_events st ch (msg_id m)) s (process_message srv st ch m s)
   \<and> should_stop (process_message srv st ch m s) = should_stop s"
proof (cases "meow_mode st \<noteq> ''off'' \<and> content m \<noteq> Some MEOW_TEXT")
  case False
  have "range Sleep \<union> (if meow_mode st = ''edit_only'' then {} else {Call (Delete ch (msg_id m))})
          \<subseteq> message_events st ch (msg_id m)"
    by (auto simp: message_events_def)
  then have "emits (message_events st ch (msg_id m)) s (delete_step srv st ch (msg_id m) False s)"
    using delete_step_frame [of st ch "msg_id m" s srv False] emits_mono by blast
  moreover have "should_stop (delete_step srv st ch (msg_id m) False s) = should_stop s"
    using delete_step_frame [of st ch "msg_id m" s srv False] by blast
  moreover have "process_message srv st ch m s = delete_step srv st ch (msg_id m) False s"
    using False by (auto simp: process_message_def)
  ultimately show ?thesis by simp
next
  case True
  let ?M = "message_events st ch (msg_id m)"
  obtain es wg s1 where el: "edit_loop srv st ch (msg_id m) [1 .. max_retries st] s = ((es, wg), s1)"
    by (metis surj_pair)
  have sub1: "insert (Call (Edit ch (msg_id m) MEOW_TEXT)) (range Sleep) \<subseteq> ?M"
    using True by (auto simp: message_events_def)
  have sub2: "range Sleep \<union> (if meow_mode st = ''edit_only'' then {} else {Call (Delete ch (msg_id m))})
          \<subseteq> ?M"
    by (auto simp: message_events_def)
  have e1: "emits ?M s s1" using edit_loop_frame [OF el] sub1 emits_mono by blast
  have ss1: "should_stop s1 = should_stop s" using edit_loop_frame [OF el] by blast
  let ?s2 = "if es then sleep (delete_delay st) s1 else s1"
  have e2: "emits ?M s1 ?s2" and ss2: "should_stop ?s2 = should_stop s1"
    by (auto simp: emits_refl message_events_def intro!: emits_sleep)
  have ss3: "should_stop (delete_step srv st ch (msg_id m) wg ?s2) = should_stop ?s2"
    using delete_step_frame [of st ch "msg_id m" ?s2 srv wg] by blast
  have e3: "emits ?M ?s2 (delete_step srv st ch (msg_id m) wg ?s2)"
    using delete_step_frame [of st ch "msg_id m" ?s2 srv wg] sub2 emits_mono by blast
  have "process_message srv st ch m s = (if wg then s1 else delete_step srv st ch (msg_id m) wg ?s2)"
    using True el by (simp add: process_message_def)
  then show ?thesis using e1 e2 e3 ss1 ss2 ss3
    by (auto intro: emits_trans)
qed

lemma process_batch_frame:
  "process_batch srv st ch ms oldest s = (res, s') \<Longrightarrow>
     emits (batch_events st ch ms) s s' \<and> should_stop s' = should_stop s"
proof (induction ms arbitrary: oldest s)
  case Nil
  then show ?case by (simp add: emits_refl)
next
  case (Cons m ms)
  show ?case
  proof (cases "should_stop s")
    case True
    with Cons.prems show ?thesis by (simp add: emits_refl)
  next
    case False
    let ?s1 = "process_message srv st ch m s"
    from Cons.prems False
    have "process_batch srv st ch ms (older (msg_id m) oldest) ?s1 = (res, s')" by simp
    from Cons.IH [OF this]
    have "emits (batch_events st ch ms) ?s1 s'" "should_stop s' = should_stop ?s1" by simp_all
    moreover have "emits (message_events st ch (msg_id m)) s ?s1" "should_stop ?s1 = should_stop s"
      using process_message_frame [of st ch m s srv] by simp_all
    moreover have "batch_events st ch ms \<subseteq> batch_events st ch (m # ms)"
      "message_events st ch (msg_id m) \<subseteq> batch_events st ch (m # ms)"
      by (auto simp: batch_events_def)
    ultimately show ?thesis by (metis emits_mono emits_trans)
  qed
qed

subsection \<open>The cases of one turn of the page loop\<close>


lemma all_hit_Nil [simp]: "all_hit_messages a [] = []"
  by (simp add: all_hit_messages_def)

lemma eligible_Nil [simp]: "eligible st a [] = []"
  by (simp add: eligible_def)

lemma handle_page_empty:
  "messages r = [] \<Longrightarrow>
   handle_page srv st a ch dry r cur s =
     (if MAX_EMPTY_PAGES \<le> empty_pages cur + 1
      then (Break, cur\<lparr>empty_pages := empty_pages cur + 1\<rparr>, s)
      else (Continue, cur\<lparr>empty_pages := empty_pages cur + 1\<rparr>, sleep (search_delay st) s))"
  by (simp add: handle_page_def Let_def)

lemma handle_page_foreign:
  "messages r \<noteq> [] \<Longrightarrow> all_hit_messages a (messages r) = [] \<Longrightarrow>
   handle_page srv st a ch dry r cur s =
     (Continue,
      (case oldest_hit (messages r) of
         None \<Rightarrow> cur\<lparr>empty_pages := 0, offset := offset cur + int (length (messages r))\<rparr>
       | Some oldest_id \<Rightarrow>
           if oldest_id \<noteq> 0
           then cur\<lparr>empty_pages := 0, max_id_cursor := Some (oldest_id - 1), offset := 0\<rparr>
           else cur\<lparr>empty_pages := 0, offset := offset cur + int (length (messages r))\<rparr>),
      sleep (search_delay st) s)"
  by (simp add: handle_page_def Let_def eligible_def advance_def split: option.splits)

lemma handle_page_filtered:
  "all_hit_messages a (messages r) \<noteq> [] \<Longrightarrow> eligible st a (messages r) = [] \<Longrightarrow>
   handle_page srv st a ch dry r cur s =
     (Continue,
      cur\<lparr>empty_pages := 0, max_id_cursor := Some (min_id (all_hit_messages a (messages r)) - 1),
          offset := 0\<rparr>,
      sleep (search_delay st) s)"
  by (auto simp: handle_page_def Let_def advance_def)

lemma handle_page_dry_run:
  "eligible st a (messages r) \<noteq> [] \<Longrightarrow>
   handle_page srv st a ch True r cur s =
     (Continue,
      cur\<lparr>empty_pages := 0, max_id_cursor := Some (min_id (eligible st a (messages r)) - 1),
          offset := 0\<rparr>,
      sleep (search_delay st) s)"
  by (auto simp: handle_page_def Let_def advance_def)

lemma handle_page_batch:
  "eligible st a (messages r) \<noteq> [] \<Longrightarrow>
   handle_page srv st a ch False r cur s =
     (case process_batch srv st ch (eligible st a (messages r)) None s of
        (oldest_processed_id, s1) \<Rightarrow>
          (Continue,
           (case oldest_processed_id of
              None \<Rightarrow> cur\<lparr>empty_pages := 0\<rparr>
            | Some oldest \<Rightarrow> cur\<lparr>empty_pages := 0, max_id_cursor := Some (oldest - 1), offset := 0\<rparr>),
           sleep (search_delay st) s1))"
  by (auto simp: handle_page_def Let_def advance_def split: prod.splits option.splits)

lemma handle_page_cases:
  obtains (empty) "messages r = []"
  | (foreign) "messages r \<noteq> []" "all_hit_messages a (messages r) = []"
  | (filtered) "all_hit_messages a (messages r) \<noteq> []" "eligible st a (messages r) = []"
  | (batch) "eligible st a (messages r) \<noteq> []"
  by blast

lemma range_Sleep_page_events: "range Sleep \<subseteq> page_events st a ch dry r"
  by (auto simp: page_events_def batch_events_def)

lemma handle_page_frame:
  assumes "handle_page srv st a ch dry r cur s = (ctl, cur', s')"
  shows "emits (page_events st a ch dry r) s s' \<and> should_stop s' = should_stop s"
proof (cases rule: handle_page_cases [where r=r and a=a and st=st])
  case empty
  with assms range_Sleep_page_events [of st a ch dry r] show ?thesis
    by (auto simp: handle_page_empty emits_refl split: if_splits intro!: emits_sleep)
next
  case foreign
  with assms range_Sleep_page_events [of st a ch dry r] show ?thesis
    by (auto simp: handle_page_foreign intro!: emits_sleep)
next
  case filtered
  with assms range_Sleep_page_events [of st a ch dry r] show ?thesis
    by (auto simp: handle_page_filtered intro!: emits_sleep)
next
  case batch
  show ?thesis
  proof (cases dry)
    case True
    with batch assms range_Sleep_page_events [of st a ch dry r] show ?thesis
      by (auto simp: handle_page_dry_run intro!: emits_sleep)
  next
    case False
    obtain o1 s1 where pb: "process_batch srv st ch (eligible st a (messages r)) None s = (o1, s1)"
      by force
    from process_batch_frame [OF pb] False
    have "emits (page_events st a ch dry r) s s1" "should_stop s1 = should_stop s"
      by (simp_all add: page_events_def)
    moreover have "emits (page_events st a ch dry r) s1 (sleep (search_delay st) s1)"
      using range_Sleep_page_events [of st a ch dry r] by (auto intro!: emits_sleep)
    moreover have "s' = sleep (search_delay st) s1"
      using assms batch False pb by (simp add: handle_page_batch)
    ultimately show ?thesis by (auto intro: emits_trans)
  qed
qed

lemma handle_page_dry_stats:
  "handle_page srv st a ch True r cur s = (ctl, cur', s') \<Longrightarrow> stats s' = stats s"
  by (cases rule: handle_page_cases [where r=r and a=a and st=st])
     (auto simp: handle_page_empty handle_page_foreign handle_page_filtered handle_page_dry_run
        split: if_splits)

subsection \<open>What a walk and a run emit\<close>

lemma page_events_walk_events: "page_events st a ch dry r \<subseteq> walk_events st ch dry"
  by (auto simp: page_events_def walk_events_def batch_events_def)

lemma walk_frame:
  "walk n srv st a g ch dry cur s = (e, cur', s') \<Longrightarrow>
     emits (walk_events st ch dry) s s' \<and> should_stop s' = should_stop s
     \<and> (dry \<longrightarrow> same_outcomes s s')"
proof (induction n arbitrary: cur s)
  case 0
  then show ?case by (simp add: emits_refl same_outcomes_def)
next
  case (Suc n)
  let ?W = "walk_events st ch dry"
  show ?case
  proof (cases "should_stop s")
    case True
    with Suc.prems show ?thesis by (simp add: emits_refl same_outcomes_def)
  next
    case False
    obtain sr s1 where sm:
      "search_messages (Suc n) srv g ch (offset cur) (max_id_cursor cur) s = (sr, s1)"
      by force
    have "insert (Call (Search g ch (offset cur) (max_id_cursor cur))) (range Sleep) \<subseteq> ?W"
      by (auto simp: walk_events_def)
    with search_messages_frame [OF sm]
    have e1: "emits ?W s s1" and so1: "same_outcomes s s1" and ss1: "should_stop s1 = should_stop s"
      using emits_mono by blast+
    show ?thesis
    proof (cases sr)
      case Timeout
      with Suc.prems False sm e1 so1 ss1 show ?thesis by auto
    next
      case RequestException
      with Suc.prems False sm e1 so1 ss1 show ?thesis by auto
    next
      case (Page r)
      obtain ctl cur1 s2 where hp: "handle_page srv st a ch dry r cur s1 = (ctl, cur1, s2)"
        by (metis surj_pair)
      from handle_page_frame [OF hp] page_events_walk_events [of st a ch dry r]
      have e2: "emits ?W s1 s2" and ss2: "should_stop s2 = should_stop s1"
        using emits_mono by blast+
      have so2: "dry \<longrightarrow> same_outcomes s1 s2"
        using hp handle_page_dry_stats by (auto simp: same_outcomes_def)
      show ?thesis
      proof (cases ctl)
        case Break
        with Suc.prems False sm Page hp have "s' = s2" by simp
        with e1 e2 ss1 ss2 so1 so2 show ?thesis
          by (auto simp: same_outcomes_def intro: emits_trans)
      next
        case Continue
        with Suc.prems False sm Page hp
        have "walk n srv st a g ch dry cur1 s2 = (e, cur', s')" by simp
        from Suc.IH [OF this]
        have "emits ?W s2 s'" "should_stop s' = should_stop s2" "dry \<longrightarrow> same_outcomes s2 s'"
          by simp_all
        with e1 e2 ss1 ss2 so1 so2 show ?thesis
          by (auto simp: same_outcomes_def intro: emits_trans)
      qed
    qed
  qed
qed

lemma search_messages_page:
  "srv (calls s) (Search g ch ofs mx) = Response r \<Longrightarrow> delivers r \<Longrightarrow>
   search_messages (Suc n) srv g ch ofs mx s =
     (Page r, s\<lparr>calls := calls s + 1, trace := trace s @ [Call (Search g ch ofs mx)]\<rparr>)"
  by (simp add: http_def delivers_def)

lemma save_progress_simps [simp]:
  "trace (save_progress s) = trace s" "stats (save_progress s) = stats s"
  "should_stop (save_progress s) = should_stop s"
  by (simp_all add: save_progress_def)

lemma process_target_frame:
  "process_target n srv st a tgt dry s = (e, cur', s') \<Longrightarrow>
     emits (walk_events st (channel_id tgt) dry) s s' \<and> should_stop s' = should_stop s
     \<and> (dry \<longrightarrow> same_outcomes s s')"
  unfolding process_target_def by (rule walk_frame)

lemma target_loop_frame:
  "target_loop n srv st a tgts dry idx s = (e, s') \<Longrightarrow>
     emits (run_events st dry) s s' \<and> (dry \<longrightarrow> same_outcomes s s')"
proof (induction idx arbitrary: s)
  case Nil
  then show ?case by (simp add: emits_refl same_outcomes_def)
next
  case (Cons i idx)
  show ?case
  proof (cases "should_stop s")
    case True
    with Cons.prems show ?thesis by (simp add: emits_refl same_outcomes_def)
  next
    case False
    obtain e1 cur1 s1 where pt: "process_target n srv st a (tgts ! i) dry s = (e1, cur1, s1)"
      by (metis surj_pair)
    have "walk_events st (channel_id (tgts ! i)) dry \<subseteq> run_events st dry"
      by (auto simp: run_events_def)
    with process_target_frame [OF pt]
    have f1: "emits (run_events st dry) s s1" "dry \<longrightarrow> same_outcomes s s1"
      using emits_mono by blast+
    show ?thesis
    proof (cases e1)
      case OutOfFuel
      with Cons.prems False pt f1 show ?thesis by auto
    next
      case Returned
      let ?s2 = "save_progress (s1\<lparr>current_target_index := i + 1\<rparr>)"
      from Cons.prems False pt Returned
      have "target_loop n srv st a tgts dry idx ?s2 = (e, s')" by simp
      from Cons.IH [OF this]
      have "emits (run_events st dry) ?s2 s'" "dry \<longrightarrow> same_outcomes ?s2 s'" by simp_all
      moreover have "emits (run_events st dry) s1 ?s2" by (simp add: emits_same_trace)
      moreover have "same_outcomes s1 ?s2" by (simp add: same_outcomes_def)
      ultimately show ?thesis using f1
        by (auto simp: same_outcomes_def intro: emits_trans)
    qed
  qed
qed

lemma run_batch_frame:
  "emits (run_events (effective_settings fs ma sa) dry) s
     (snd (run_batch n srv fs tgts a dry resume sc ans ma sa s))
   \<and> (dry \<longrightarrow> same_outcomes s (snd (run_batch n srv fs tgts a dry resume sc ans ma sa s)))"
proof -
  let ?st = "effective_settings fs ma sa"
  let ?s1 = "case progress_file s of None \<Rightarrow> s
             | Some cp \<Rightarrow> if resume
                 then s\<lparr>progress_data := Some cp, current_target_index := cp_current_target_index cp\<rparr>
                 else s"
  let ?ts = "filter enabled tgts"
  have a: "emits (run_events ?st dry) s ?s1" "same_outcomes s ?s1"
    by (auto simp: emits_def same_outcomes_def split: option.splits)
  obtain e s2 where tl:
    "target_loop n srv ?st a ?ts dry [current_target_index ?s1 ..< length ?ts] ?s1 = (e, s2)"
    by force
  from target_loop_frame [OF tl]
  have b: "emits (run_events ?st dry) ?s1 s2" "dry \<longrightarrow> same_outcomes ?s1 s2" by simp_all
  have "snd (run_batch n srv fs tgts a dry resume sc ans ma sa s) = ?s1
        \<or> snd (run_batch n srv fs tgts a dry resume sc ans ma sa s) = s2"
    using tl by (cases e) (auto simp: run_batch_def Let_def)
  with a b show ?thesis
    by (auto simp: same_outcomes_def intro: emits_trans)
qed

lemma no_delete_when_edit_only:
  "meow_mode st = ''edit_only'' \<Longrightarrow> e \<in> walk_events st ch dry \<Longrightarrow> \<not> is_delete e"
  by (auto simp: walk_events_def message_events_def split: if_splits)

lemma no_action_when_dry_run:
  "e \<in> walk_events st ch True \<Longrightarrow> \<not> is_delete e \<and> \<not> is_edit e"
  by (auto simp: walk_events_def)

subsection \<open>The first request of a search and of a walk\<close>

lemma walk_step:
  "search_messages (Suc n) srv g ch (offset cur) (max_id_cursor cur) s = (Page r, s1) \<Longrightarrow>
   \<not> should_stop s \<Longrightarrow> handle_page srv st a ch dry r cur s1 = (Continue, cur1, s2) \<Longrightarrow>
   walk (Suc n) srv st a g ch dry cur s = walk n srv st a g ch dry cur1 s2"
  by (simp del: search_messages.simps)

lemma search_first_call:
  "\<exists>evs. trace (snd (search_messages (Suc n) srv g ch ofs mx s))
     = trace s @ Call (Search g ch ofs mx) # evs"
proof -
  obtain res s' where sm: "search_messages (Suc n) srv g ch ofs mx s = (res, s')" by force
  let ?s1 = "s\<lparr>calls := calls s + 1, trace := trace s @ [Call (Search g ch ofs mx)]\<rparr>"
  have "\<exists>evs. trace s' = trace ?s1 @ evs"
  proof (cases "srv (calls s) (Search g ch ofs mx)")
    case NetworkError
    with sm show ?thesis by (auto simp: http_def)
  next
    case (Response r)
    consider (limited) "status r = 429" | (indexing) "status r \<noteq> 429" "status r = 202"
      | (other) "status r \<noteq> 429" "status r \<noteq> 202" by blast
    then show ?thesis
    proof cases
      case limited
      with sm Response
      have "search_messages n srv g ch ofs mx
              (sleep (get_retry_after r 40 * 2) (count_rate_limited ?s1)) = (res, s')"
        by (simp add: http_def)
      from search_messages_frame [OF this] show ?thesis by (auto simp: emits_def)
    next
      case indexing
      with sm Response
      have "search_messages n srv g ch ofs mx (sleep (get_retry_after r 5) ?s1) = (res, s')"
        by (simp add: http_def)
      from search_messages_frame [OF this] show ?thesis by (auto simp: emits_def)
    next
      case other
      with sm Response show ?thesis by (auto simp: http_def split: if_splits)
    qed
  qed
  with sm show ?thesis by auto
qed

lemma walk_extends:
  "\<exists>evs. trace (snd (snd (walk n srv st a g ch dry cur s))) = trace s @ evs"
proof -
  obtain e cur' s' where w: "walk n srv st a g ch dry cur s = (e, cur', s')"
    by (metis surj_pair)
  from walk_frame [OF w] w show ?thesis by (auto simp: emits_def)
qed

lemma walk_first_call:
  assumes "\<not> should_stop s"
  shows "\<exists>evs. trace (snd (snd (walk (Suc n) srv st a g ch dry cur s)))
     = trace s @ Call (Search g ch (offset cur) (max_id_cursor cur)) # evs"
proof -
  let ?c = "Call (Search g ch (offset cur) (max_id_cursor cur))"
  obtain sr s1 where sm:
    "search_messages (Suc n) srv g ch (offset cur) (max_id_cursor cur) s = (sr, s1)" by force
  from search_first_call [of n srv g ch "offset cur" "max_id_cursor cur" s] sm
  obtain evs1 where t1: "trace s1 = trace s @ ?c # evs1" by auto
  have "\<exists>evs. trace (snd (snd (walk (Suc n) srv st a g ch dry cur s))) = trace s1 @ evs"
  proof (cases sr)
    case Timeout
    with assms sm show ?thesis by (simp del: search_messages.simps)
  next
    case RequestException
    with assms sm show ?thesis by (simp del: search_messages.simps)
  next
    case (Page r)
    obtain ctl cur1 s2 where hp: "handle_page srv st a ch dry r cur s1 = (ctl, cur1, s2)"
      by (metis surj_pair)
    from handle_page_frame [OF hp] obtain evs2 where t2: "trace s2 = trace s1 @ evs2"
      by (auto simp: emits_def)
    show ?thesis
    proof (cases ctl)
      case Break
      with assms sm Page hp t2 show ?thesis by (simp del: search_messages.simps)
    next
      case Continue
      with assms sm Page hp
      have "walk (Suc n) srv st a g ch dry cur s = walk n srv st a g ch dry cur1 s2"
        by (simp del: search_messages.simps)
      with walk_extends [of n srv st a g ch dry cur1 s2] t2 show ?thesis by auto
    qed
  qed
  with t1 show ?thesis by auto
qed

subsection \<open>Counters touched by the retry loops\<close>

lemma delete_message_first_call:
  "\<exists>evs. trace (snd (delete_message srv ch i a s)) = trace s @ Call (Delete ch i) # evs"
  by (auto simp: delete_message_def http_def sleep_def count_rate_limited_def
        split: reply.splits)

lemma delete_loop_first_call:
  assumes "delete_loop srv st ch i (a # rest) wg s = (wg', s')"
  shows "\<exists>evs. trace s' = trace s @ Call (Delete ch i) # evs"
proof -
  obtain r s1 where dm: "delete_message srv ch i a s = (r, s1)" by force
  from delete_message_first_call [of srv ch i a s] dm
  obtain evs where t1: "trace s1 = trace s @ Call (Delete ch i) # evs" by auto
  have "\<exists>evs'. trace s' = trace s1 @ evs'"
  proof (cases "r = RETRY \<and> a < max_retries st")
    case True
    with assms dm have "delete_loop srv st ch i rest wg (sleep 1 s1) = (wg', s')" by simp
    from delete_loop_frame [OF this] show ?thesis by (auto simp: emits_def)
  next
    case False
    with assms dm have "trace s' = trace s1" by (cases r) (auto split: if_splits)
    then show ?thesis by simp
  qed
  with t1 show ?thesis by auto
qed

lemma delete_loop_counts:
  "as \<noteq> [] \<Longrightarrow> max_retries st \<le> last as \<Longrightarrow> delete_loop srv st ch i as wg s = (wg', s') \<Longrightarrow>
     outcome_total (stats s') = outcome_total (stats s) + 1 \<and>
     deleted (stats s) \<le> deleted (stats s') \<and> ghosts (stats s) \<le> ghosts (stats s') \<and>
     skipped (stats s) \<le> skipped (stats s') \<and> failed (stats s) \<le> failed (stats s') \<and>
     edited (stats s') = edited (stats s)"
proof (induction as arbitrary: s)
  case Nil
  then show ?case by simp
next
  case (Cons a as)
  obtain r s1 where dm: "delete_message srv ch i a s = (r, s1)" by force
  from delete_message_frame(2) [OF dm] have so: "same_outcomes s s1" .
  show ?case
  proof (cases "r = RETRY \<and> a < max_retries st")
    case True
    with Cons.prems have ne: "as \<noteq> []" by auto
    with Cons.prems have la: "max_retries st \<le> last as" by simp
    from Cons.prems True dm have "delete_loop srv st ch i as wg (sleep 1 s1) = (wg', s')" by simp
    from Cons.IH [OF ne la this] so show ?thesis
      by (simp add: same_outcomes_def outcome_total_def)
  next
    case False
    with Cons.prems dm so show ?thesis
      by (cases r)
         (auto simp: same_outcomes_def outcome_total_def count_deleted_def count_ghost_def
            count_skipped_def count_failed_def split: if_splits)
  qed
qed

lemma edit_loop_counts:
  "edit_loop srv st ch i as s = ((es, wg), s') \<Longrightarrow>
     (es \<longrightarrow> edited (stats s') = edited (stats s) + 1 \<and> ghosts (stats s') = ghosts (stats s)) \<and>
     (wg \<longrightarrow> ghosts (stats s') = ghosts (stats s) + 1 \<and> edited (stats s') = edited (stats s)) \<and>
     deleted (stats s') = deleted (stats s) \<and> skipped (stats s') = skipped (stats s) \<and>
     failed (stats s') = failed (stats s)"
proof (induction as arbitrary: s)
  case Nil
  then show ?case by simp
next
  case (Cons a as)
  obtain r s1 where em: "edit_message srv ch i MEOW_TEXT a s = (r, s1)" by force
  from edit_message_frame(2) [OF em] have so: "same_outcomes s s1" .
  show ?case
  proof (cases "r = RETRY \<and> a < max_retries st")
    case True
    from Cons.prems True em have "edit_loop srv st ch i as (sleep 1 s1) = ((es, wg), s')" by simp
    from Cons.IH [OF this] so show ?thesis
      by (simp add: same_outcomes_def)
  next
    case False
    with Cons.prems em so show ?thesis
      by (cases r)
         (auto simp: same_outcomes_def count_edited_def count_ghost_def split: if_splits)
  qed
qed

lemma upto_last: "(1::int) \<le> n \<Longrightarrow> [1 .. n] \<noteq> [] \<and> last [1 .. n] = n"
  by (simp add: upto_rec2)

subsection \<open>The oldest processed id\<close>








subsection \<open>The cursor never rises\<close>














subsection \<open>Termination for a well-behaved server\<close>







section \<open>Claims\<close>

subsection \<open>C1: statistics after a resume\<close>

text \<open>
  Claim C1 says that a resumed run starts its statistics from those of the checkpoint.
  \<^verbatim>\<open>run_batch\<close> reads the checkpoint into \<open>progress_data\<close> and takes only
  \<^verbatim>\<open>current_target_index\<close> from it; the statistics stay those of \<^verbatim>\<open>__init__\<close>. Resumed
  at target 2 of 5 from a checkpoint that counts 10 deletions, a run that deletes three
  messages in each of the three remaining targets ends with \<open>deleted = 9\<close>, not 19, and
  writes that count over the checkpoint.
\<close>

theorem resume_restarts_statistics:
  "fst (run_batch 4 one_page_server settings0 five_targets ''42'' False True True [] None None
          (new_paracord (Some saved))) = Finished
   \<and> deleted (cp_stats saved) = 10
   \<and> stats (snd (run_batch 4 one_page_server settings0 five_targets ''42'' False True True []
          None None (new_paracord (Some saved))))
       = \<lparr>deleted = 9, edited = 0, failed = 0, skipped = 0, rate_limited = 0, ghosts = 0\<rparr>
   \<and> progress_file (snd (run_batch 4 one_page_server settings0 five_targets ''42'' False True
          True [] None None (new_paracord (Some saved))))
       = Some \<lparr>cp_current_target_index = 5,
               cp_stats = \<lparr>deleted = 9, edited = 0, failed = 0, skipped = 0, rate_limited = 0,
                           ghosts = 0\<rparr>\<rparr>"
  by code_simp

subsection \<open>C2: a skipped edit\<close>

text \<open>
  Claim C2 says that a message whose edit is skipped is finished: no deletion is attempted.
  That fails in the mode \<^verbatim>\<open>edit_and_delete\<close>: after an edit that the server forbids
  (status 403, outcome \<open>SKIP\<close>) the delete request for the same message is sent.
\<close>

theorem skipped_edit_is_followed_by_delete:
  "fst (edit_message forbidding_server ''7'' 100 MEOW_TEXT 1 (new_paracord None)) = SKIP
   \<and> trace (process_message forbidding_server (settings0\<lparr>meow_mode := ''edit_and_delete''\<rparr>) ''7''
             (own_msg 100 ''hi'') (new_paracord None))
       = [Call (Edit ''7'' 100 MEOW_TEXT), Call (Delete ''7'' 100), Sleep 1]"
  by code_simp

text \<open>
  Claim C2 as amended. An edit attempt with outcome \<open>SKIP\<close> ends the marking step of its
  message at once: the edit loop makes no further attempt, and the attempt has sent one
  request, slept not at all and changed no counter. In mark-only mode the message is then
  finished, with only the pause \<open>delete_delay\<close> after it. In every other marking mode the
  deletion step follows: the next request is the delete request for the same message.
\<close>

theorem skipped_edit_ends_marking:
  "(edit_message srv ch i MEOW_TEXT a s = (SKIP, s1) \<longrightarrow>
      edit_loop srv st ch i (a # rest) s = ((False, False), s1) \<and>
      trace s1 = trace s @ [Call (Edit ch i MEOW_TEXT)] \<and> stats s1 = stats s)
   \<and> (meow_mode st = ''edit_only'' \<and> content m \<noteq> Some MEOW_TEXT \<and> 1 \<le> max_retries st \<and>
      edit_message srv ch (msg_id m) MEOW_TEXT 1 s = (SKIP, s1) \<longrightarrow>
      process_message srv st ch m s = sleep (delete_delay st) s1)
   \<and> (meow_mode st \<noteq> ''off'' \<and> meow_mode st \<noteq> ''edit_only'' \<and> content m \<noteq> Some MEOW_TEXT \<and>
      1 \<le> max_retries st \<and> edit_message srv ch (msg_id m) MEOW_TEXT 1 s = (SKIP, s1) \<longrightarrow>
      (\<exists>evs. trace (process_message srv st ch m s) = trace s1 @ Call (Delete ch (msg_id m)) # evs))"
proof -
  have p1: "edit_loop srv st ch i (a # rest) s = ((False, False), s1) \<and>
      trace s1 = trace s @ [Call (Edit ch i MEOW_TEXT)] \<and> stats s1 = stats s"
    if "edit_message srv ch i MEOW_TEXT a s = (SKIP, s1)"
    using that by (auto simp: edit_message_def http_def split: reply.splits if_splits)
  have p2: "process_message srv st ch m s = sleep (delete_delay st) s1"
    if h: "meow_mode st = ''edit_only'' \<and> content m \<noteq> Some MEOW_TEXT \<and> 1 \<le> max_retries st \<and>
      edit_message srv ch (msg_id m) MEOW_TEXT 1 s = (SKIP, s1)"
  proof -
    from h have "[1 .. max_retries st] = 1 # [2 .. max_retries st]" by (simp add: upto_rec1)
    with h show ?thesis by (simp add: process_message_def delete_step_def)
  qed
  have p3: "\<exists>evs. trace (process_message srv st ch m s) = trace s1 @ Call (Delete ch (msg_id m)) # evs"
    if h: "meow_mode st \<noteq> ''off'' \<and> meow_mode st \<noteq> ''edit_only'' \<and> content m \<noteq> Some MEOW_TEXT \<and>
      1 \<le> max_retries st \<and> edit_message srv ch (msg_id m) MEOW_TEXT 1 s = (SKIP, s1)"
  proof -
    from h have u: "[1 .. max_retries st] = 1 # [2 .. max_retries st]" by (simp add: upto_rec1)
    with h have pm: "process_message srv st ch m s = delete_step srv st ch (msg_id m) False s1"
      by (simp add: process_message_def)
    obtain wg' s2 where
      dl: "delete_loop srv st ch (msg_id m) (1 # [2 .. max_retries st]) False s1 = (wg', s2)"
      by force
    from delete_loop_first_call [OF dl]
    obtain evs where t: "trace s2 = trace s1 @ Call (Delete ch (msg_id m)) # evs" by auto
    have "delete_step srv st ch (msg_id m) False s1 =
            (if \<not> wg' then sleep (delete_delay st) s2 else s2)"
      using h u dl by (simp add: delete_step_def)
    with t pm show ?thesis by auto
  qed
  from p1 p2 p3 show ?thesis by blast
qed

theorem skipped_edit_ends_marking_witness:
  "edit_loop forbidding_server settings0 ''7'' 100 [1, 2, 3] (new_paracord None) =
     ((False, False), (new_paracord None)\<lparr>calls := 1, trace := [Call (Edit ''7'' 100 MEOW_TEXT)]\<rparr>)
   \<and> process_message forbidding_server (settings0\<lparr>meow_mode := ''edit_only''\<rparr>) ''7''
        (own_msg 100 ''hi'') (new_paracord None) =
      (new_paracord None)\<lparr>calls := 1, trace := [Call (Edit ''7'' 100 MEOW_TEXT), Sleep 1]\<rparr>
   \<and> (\<exists>evs. trace (process_message forbidding_server (settings0\<lparr>meow_mode := ''edit_and_delete''\<rparr>)
        ''7'' (own_msg 100 ''hi'') (new_paracord None))
         = [Call (Edit ''7'' 100 MEOW_TEXT), Call (Delete ''7'' 100)] @ evs)"
proof -
  let ?s = "new_paracord None"
  let ?s1 = "?s\<lparr>calls := 1, trace := [Call (Edit ''7'' 100 MEOW_TEXT)]\<rparr>"
  have sk: "edit_message forbidding_server ''7'' 100 MEOW_TEXT 1 ?s = (SKIP, ?s1)"
    by (simp add: edit_message_def http_def forbidding_server_def plain_def new_paracord_def)
  have c: "content (own_msg 100 ''hi'') \<noteq> Some MEOW_TEXT" "msg_id (own_msg 100 ''hi'') = 100"
    by (simp_all add: own_msg_def MEOW_TEXT_def)
  have st: "meow_mode (settings0\<lparr>meow_mode := ''edit_only''\<rparr>) = ''edit_only''"
    "meow_mode (settings0\<lparr>meow_mode := ''edit_and_delete''\<rparr>) \<noteq> ''off''"
    "meow_mode (settings0\<lparr>meow_mode := ''edit_and_delete''\<rparr>) \<noteq> ''edit_only''"
    "max_retries (settings0\<lparr>meow_mode := ''edit_only''\<rparr>) = 3"
    "max_retries (settings0\<lparr>meow_mode := ''edit_and_delete''\<rparr>) = 3"
    "delete_delay (settings0\<lparr>meow_mode := ''edit_only''\<rparr>) = 1"
    by (simp_all add: settings0_def)
  from skipped_edit_ends_marking [where srv = forbidding_server and ch = "''7''" and i = 100
      and a = 1 and s = "?s" and ?s1.0 = "?s1" and st = "settings0\<lparr>meow_mode := ''edit_only''\<rparr>"
      and m = "own_msg 100 ''hi''" and rest = "[2, 3]"]
    skipped_edit_ends_marking [where srv = forbidding_server and ch = "''7''" and i = 100
      and a = 1 and s = "?s" and ?s1.0 = "?s1" and st = "settings0\<lparr>meow_mode := ''edit_and_delete''\<rparr>"
      and m = "own_msg 100 ''hi''" and rest = "[2, 3]"]
    skipped_edit_ends_marking [where srv = forbidding_server and ch = "''7''" and i = 100
      and a = 1 and s = "?s" and ?s1.0 = "?s1" and st = settings0 and rest = "[2, 3]"]
    sk c st
  show ?thesis by (simp add: sleep_def)
qed

subsection \<open>C4: the cursor\<close>




subsection \<open>C5: the backoff policy\<close>

text \<open>
  Claim C5 says that every index-not-ready response makes the engine wait for the suggested
  time and then try the same operation again. That holds of a search only. \<^verbatim>\<open>delete_message\<close>
  and \<^verbatim>\<open>edit_message\<close> have no branch for the status 202: a 202 response to a delete or to an
  edit, whatever wait it suggests, falls into the last \<^verbatim>\<open>else\<close> and is a permanent failure at
  once, with no sleep and no second attempt; the delete loop counts it as failed.
\<close>

theorem not_ready_delete_fails_at_once:
  "delete_message indexing_server ''7'' 100 1 (new_paracord None) =
     (FAILED, (new_paracord None)\<lparr>calls := 1, trace := [Call (Delete ''7'' 100)]\<rparr>)
   \<and> edit_message indexing_server ''7'' 100 MEOW_TEXT 1 (new_paracord None) =
     (FAILED, (new_paracord None)\<lparr>calls := 1, trace := [Call (Edit ''7'' 100 MEOW_TEXT)]\<rparr>)
   \<and> trace (snd (delete_loop indexing_server settings0 ''7'' 100 [1 .. 3] False
        (new_paracord None))) = [Call (Delete ''7'' 100)]
   \<and> failed (stats (snd (delete_loop indexing_server settings0 ''7'' 100 [1 .. 3] False
        (new_paracord None)))) = 1"
  by code_simp

text \<open>
  Claim C5 as amended. A rate-limited response (status 429) that suggests the wait \<open>w\<close> makes
  the engine sleep \<open>2 * w\<close> right after the request and adds exactly one to the
  \<open>rate_limited\<close> counter: \<^verbatim>\<open>search_messages\<close> then issues the same search again,
  \<^verbatim>\<open>delete_message\<close> and \<^verbatim>\<open>edit_message\<close> return \<open>RETRY\<close> to the retry loop. An
  index-not-ready response (status 202) to a search makes the engine sleep exactly \<open>w\<close>,
  leaves every counter as it is, and the same search is issued again. A 202 response to a
  delete or to an edit is not taken as index-not-ready: the operation returns \<open>FAILED\<close> at
  once, having sent its one request, without a sleep and without a change of any counter.
\<close>

theorem backoff_policy:
  "(srv (calls s) (Search g ch ofs mx) = Response r \<and> status r = 429 \<and> retry_after r = Some w \<longrightarrow>
      search_messages (Suc n) srv g ch ofs mx s =
        search_messages n srv g ch ofs mx
          (s\<lparr>calls := calls s + 1,
             stats := (stats s)\<lparr>rate_limited := rate_limited (stats s) + 1\<rparr>,
             trace := trace s @ [Call (Search g ch ofs mx), Sleep (2 * w)]\<rparr>))
   \<and> (srv (calls s) (Search g ch ofs mx) = Response r \<and> status r = 202 \<and> retry_after r = Some w \<longrightarrow>
      search_messages (Suc n) srv g ch ofs mx s =
        search_messages n srv g ch ofs mx
          (s\<lparr>calls := calls s + 1,
             trace := trace s @ [Call (Search g ch ofs mx), Sleep w]\<rparr>))
   \<and> (srv (calls s) (Delete ch i) = Response r \<and> status r = 429 \<and> retry_after r = Some w \<longrightarrow>
      delete_message srv ch i a s =
        (RETRY, s\<lparr>calls := calls s + 1,
             stats := (stats s)\<lparr>rate_limited := rate_limited (stats s) + 1\<rparr>,
             trace := trace s @ [Call (Delete ch i), Sleep (2 * w)]\<rparr>))
   \<and> (srv (calls s) (Edit ch i new_text) = Response r \<and> status r = 429 \<and> retry_after r = Some w \<longrightarrow>
      edit_message srv ch i new_text a s =
        (RETRY, s\<lparr>calls := calls s + 1,
             stats := (stats s)\<lparr>rate_limited := rate_limited (stats s) + 1\<rparr>,
             trace := trace s @ [Call (Edit ch i new_text), Sleep (2 * w)]\<rparr>))
   \<and> (srv (calls s) (Delete ch i) = Response r \<and> status r = 202 \<longrightarrow>
      delete_message srv ch i a s =
        (FAILED, s\<lparr>calls := calls s + 1, trace := trace s @ [Call (Delete ch i)]\<rparr>))
   \<and> (srv (calls s) (Edit ch i new_text) = Response r \<and> status r = 202 \<longrightarrow>
      edit_message srv ch i new_text a s =
        (FAILED, s\<lparr>calls := calls s + 1, trace := trace s @ [Call (Edit ch i new_text)]\<rparr>))"
  by (simp add: http_def delete_message_def edit_message_def sleep_def count_rate_limited_def
        get_retry_after_def mult.commute)

text \<open>A server that always answers 429 with a wait of 5, and one that always answers 202.\<close>

theorem backoff_policy_witness:
  "delete_message busy_server ''7'' 100 1 (new_paracord None) =
     (RETRY, (new_paracord None)\<lparr>calls := 1,
        stats := (stats (new_paracord None))\<lparr>rate_limited := 1\<rparr>,
        trace := [Call (Delete ''7'' 100), Sleep 10]\<rparr>)
   \<and> edit_message busy_server ''7'' 100 MEOW_TEXT 1 (new_paracord None) =
     (RETRY, (new_paracord None)\<lparr>calls := 1,
        stats := (stats (new_paracord None))\<lparr>rate_limited := 1\<rparr>,
        trace := [Call (Edit ''7'' 100 MEOW_TEXT), Sleep 10]\<rparr>)
   \<and> search_messages (Suc 0) busy_server ''@me'' ''7'' 0 None (new_paracord None) =
     (Timeout, (new_paracord None)\<lparr>calls := 1,
        stats := (stats (new_paracord None))\<lparr>rate_limited := 1\<rparr>,
        trace := [Call (Search ''@me'' ''7'' 0 None), Sleep 10]\<rparr>)
   \<and> search_messages (Suc 0) indexing_server ''@me'' ''7'' 0 None (new_paracord None) =
     (Timeout, (new_paracord None)\<lparr>calls := 1,
        trace := [Call (Search ''@me'' ''7'' 0 None), Sleep 5]\<rparr>)
   \<and> delete_message indexing_server ''7'' 100 1 (new_paracord None) =
     (FAILED, (new_paracord None)\<lparr>calls := 1, trace := [Call (Delete ''7'' 100)]\<rparr>)
   \<and> edit_message indexing_server ''7'' 100 MEOW_TEXT 1 (new_paracord None) =
     (FAILED, (new_paracord None)\<lparr>calls := 1, trace := [Call (Edit ''7'' 100 MEOW_TEXT)]\<rparr>)"
proof -
  let ?s = "new_paracord None"
  have l: "status (limited 5) = 429" "retry_after (limited 5) = Some 5"
    and i: "status (indexing 5) = 202" "retry_after (indexing 5) = Some 5"
    by (simp_all add: limited_def indexing_def)
  have b: "busy_server k rq = Response (limited 5)"
    and x: "indexing_server k rq = Response (indexing 5)" for k rq
    by (simp_all add: busy_server_def indexing_server_def)
  note p = backoff_policy [where srv = busy_server and s = "?s" and r = "limited 5" and w = 5
      and g = "''@me''" and ch = "''7''" and ofs = 0 and mx = None and n = 0 and i = 100
      and a = 1 and new_text = MEOW_TEXT]
  note q = backoff_policy [where srv = indexing_server and s = "?s" and r = "indexing 5" and w = 5
      and g = "''@me''" and ch = "''7''" and ofs = 0 and mx = None and n = 0 and i = 100
      and a = 1 and new_text = MEOW_TEXT]
  have s0: "calls ?s = 0" "trace ?s = []" "rate_limited (stats ?s) = 0"
    by (simp_all add: new_paracord_def)
  from p q l i b x s0 show ?thesis by simp
qed

subsection \<open>C6: what the outcomes count\<close>

text \<open>
  Claim C6 says that every terminal outcome for a message adds one to exactly one counter.
  That fails in the marking step: in mark-only mode, an edit that the server forbids
  (status 403, outcome \<open>SKIP\<close>) ends the message and leaves every counter as it was.
\<close>

theorem skipped_edit_counts_nothing:
  "fst (edit_message forbidding_server ''7'' 100 MEOW_TEXT 1 (new_paracord None)) = SKIP
   \<and> stats (process_message forbidding_server (settings0\<lparr>meow_mode := ''edit_only''\<rparr>) ''7''
             (own_msg 100 ''hi'') (new_paracord None))
       = stats (new_paracord None)"
  by code_simp

text \<open>
  Claim C6 as amended. With \<open>max_retries\<close> at least 1, the deletion step of a message adds
  one to exactly one of the counters \<open>deleted\<close>, \<open>ghosts\<close>, \<open>skipped\<close>, \<open>failed\<close>, whatever
  its outcome (also when the retries run out), and leaves \<open>edited\<close> alone: the sum of the
  four grows by one and none of them shrinks. In the marking step, a completed edit adds one
  to \<open>edited\<close> only, and an edit that finds the message gone adds one to \<open>ghosts\<close> only.
\<close>

theorem outcomes_counted_once:
  "(1 \<le> max_retries st \<longrightarrow>
      outcome_total (stats (snd (delete_loop srv st ch i [1 .. max_retries st] wg s)))
        = outcome_total (stats s) + 1 \<and>
      deleted (stats s) \<le> deleted (stats (snd (delete_loop srv st ch i [1 .. max_retries st] wg s))) \<and>
      ghosts (stats s) \<le> ghosts (stats (snd (delete_loop srv st ch i [1 .. max_retries st] wg s))) \<and>
      skipped (stats s) \<le> skipped (stats (snd (delete_loop srv st ch i [1 .. max_retries st] wg s))) \<and>
      failed (stats s) \<le> failed (stats (snd (delete_loop srv st ch i [1 .. max_retries st] wg s))) \<and>
      edited (stats (snd (delete_loop srv st ch i [1 .. max_retries st] wg s))) = edited (stats s))
   \<and> (fst (fst (edit_loop srv st ch i as s)) \<longrightarrow>
      edited (stats (snd (edit_loop srv st ch i as s))) = edited (stats s) + 1 \<and>
      outcome_total (stats (snd (edit_loop srv st ch i as s))) = outcome_total (stats s) \<and>
      ghosts (stats (snd (edit_loop srv st ch i as s))) = ghosts (stats s))
   \<and> (snd (fst (edit_loop srv st ch i as s)) \<longrightarrow>
      ghosts (stats (snd (edit_loop srv st ch i as s))) = ghosts (stats s) + 1 \<and>
      edited (stats (snd (edit_loop srv st ch i as s))) = edited (stats s) \<and>
      deleted (stats (snd (edit_loop srv st ch i as s))) = deleted (stats s) \<and>
      skipped (stats (snd (edit_loop srv st ch i as s))) = skipped (stats s) \<and>
      failed (stats (snd (edit_loop srv st ch i as s))) = failed (stats s))"
proof -
  obtain wg' s' where dl: "delete_loop srv st ch i [1 .. max_retries st] wg s = (wg', s')" by force
  obtain es wg2 s2 where el: "edit_loop srv st ch i as s = ((es, wg2), s2)" by (metis surj_pair)
  have "1 \<le> max_retries st \<longrightarrow>
      outcome_total (stats s') = outcome_total (stats s) + 1 \<and>
      deleted (stats s) \<le> deleted (stats s') \<and> ghosts (stats s) \<le> ghosts (stats s') \<and>
      skipped (stats s) \<le> skipped (stats s') \<and> failed (stats s) \<le> failed (stats s') \<and>
      edited (stats s') = edited (stats s)"
    using delete_loop_counts [OF _ _ dl] upto_last [of "max_retries st"] by simp
  with dl edit_loop_counts [OF el] el show ?thesis
    by (simp add: outcome_total_def)
qed

theorem outcomes_counted_once_witness:
  "outcome_total (stats (snd (delete_loop one_page_server settings0 ''7'' 100 [1 .. 3] False
      (new_paracord None)))) = 1
   \<and> edited (stats (snd (edit_loop one_page_server settings0 ''7'' 100 [1, 2, 3]
      (new_paracord None)))) = 1
   \<and> ghosts (stats (snd (edit_loop vanished_server settings0 ''7'' 100 [1, 2, 3]
      (new_paracord None)))) = 1"
proof -
  let ?s = "new_paracord None"
  have m: "max_retries settings0 = 3" by (simp add: settings0_def)
  have z: "outcome_total (stats ?s) = 0" "edited (stats ?s) = 0" "ghosts (stats ?s) = 0"
    by (simp_all add: new_paracord_def outcome_total_def)
  have e: "fst (fst (edit_loop one_page_server settings0 ''7'' 100 [1, 2, 3] ?s))"
    and g: "snd (fst (edit_loop vanished_server settings0 ''7'' 100 [1, 2, 3] ?s))"
    by code_simp+
  from outcomes_counted_once [where st = settings0 and srv = one_page_server and s = "?s"
      and ch = "''7''" and i = 100 and wg = False and as = "[1, 2, 3]"]
    outcomes_counted_once [where st = settings0 and srv = vanished_server and s = "?s"
      and ch = "''7''" and i = 100 and as = "[1, 2, 3]"]
    m z e g
  show ?thesis by simp
qed

subsection \<open>C7: empty pages\<close>

text \<open>
  Claim C7. A search page with no message groups adds one to the count of consecutive empty
  pages. When the count reaches 3 the loop over the target ends, with no error and without
  any further request; below 3 the engine sleeps \<open>search_delay\<close> and searches again with
  the same \<open>max_id\<close> and offset. A page with at least one group sets the count back to 0.
  In particular, three empty pages in a row at the start of a target end its processing
  after exactly three searches and two sleeps.
\<close>

theorem empty_pages_policy:
  "(search_messages (Suc n) srv g ch (offset cur) (max_id_cursor cur) s = (Page r, s1) \<and>
      \<not> should_stop s \<and> messages r = [] \<longrightarrow>
      walk (Suc n) srv st a g ch dry cur s =
        (if 3 \<le> empty_pages cur + 1
         then (Returned, cur\<lparr>empty_pages := empty_pages cur + 1\<rparr>, s1)
         else walk n srv st a g ch dry (cur\<lparr>empty_pages := empty_pages cur + 1\<rparr>)
                (sleep (search_delay st) s1)))
   \<and> (messages r \<noteq> [] \<longrightarrow>
        empty_pages (fst (snd (handle_page srv st a ch dry r cur s))) = 0)
   \<and> (\<not> should_stop s \<and>
      (\<forall>k < 3. \<exists>r. srv (calls s + k) (Search (guild_of tgt) (channel_id tgt) 0 None) = Response r
                     \<and> delivers r \<and> messages r = []) \<longrightarrow>
      process_target (Suc (Suc (Suc n))) srv st a tgt dry s =
        (Returned, \<lparr>max_id_cursor = None, offset = 0, empty_pages = 3\<rparr>,
         s\<lparr>calls := calls s + 3,
           trace := trace s @
             [Call (Search (guild_of tgt) (channel_id tgt) 0 None), Sleep (search_delay st),
              Call (Search (guild_of tgt) (channel_id tgt) 0 None), Sleep (search_delay st),
              Call (Search (guild_of tgt) (channel_id tgt) 0 None)]\<rparr>))"
proof -
  have p1: "walk (Suc n) srv st a g ch dry cur s =
        (if 3 \<le> empty_pages cur + 1
         then (Returned, cur\<lparr>empty_pages := empty_pages cur + 1\<rparr>, s1)
         else walk n srv st a g ch dry (cur\<lparr>empty_pages := empty_pages cur + 1\<rparr>)
                (sleep (search_delay st) s1))"
    if "search_messages (Suc n) srv g ch (offset cur) (max_id_cursor cur) s = (Page r, s1) \<and>
      \<not> should_stop s \<and> messages r = []"
    using that by (simp add: handle_page_empty MAX_EMPTY_PAGES_def del: search_messages.simps)
  have p2: "empty_pages (fst (snd (handle_page srv st a ch dry r cur s))) = 0"
    if "messages r \<noteq> []"
    using that
    by (cases rule: handle_page_cases [where r=r and a=a and st=st]; cases dry)
       (auto simp: handle_page_foreign handle_page_filtered handle_page_dry_run handle_page_batch
          split: option.splits prod.splits)
  have p3: "process_target (Suc (Suc (Suc n))) srv st a tgt dry s =
        (Returned, \<lparr>max_id_cursor = None, offset = 0, empty_pages = 3\<rparr>,
         s\<lparr>calls := calls s + 3,
           trace := trace s @
             [Call (Search (guild_of tgt) (channel_id tgt) 0 None), Sleep (search_delay st),
              Call (Search (guild_of tgt) (channel_id tgt) 0 None), Sleep (search_delay st),
              Call (Search (guild_of tgt) (channel_id tgt) 0 None)]\<rparr>)"
    if h: "\<not> should_stop s \<and>
      (\<forall>k < 3. \<exists>r. srv (calls s + k) (Search (guild_of tgt) (channel_id tgt) 0 None) = Response r
                     \<and> delivers r \<and> messages r = [])"
  proof -
    let ?g = "guild_of tgt" and ?ch = "channel_id tgt"
    from h obtain r0 r1 r2 where
      r0: "srv (calls s) (Search ?g ?ch 0 None) = Response r0" "delivers r0" "messages r0 = []" and
      r1: "srv (calls s + 1) (Search ?g ?ch 0 None) = Response r1" "delivers r1" "messages r1 = []" and
      r2: "srv (calls s + 2) (Search ?g ?ch 0 None) = Response r2" "delivers r2" "messages r2 = []"
      by (metis add.right_neutral numeral_2_eq_2 numeral_3_eq_3 lessI less_SucI zero_less_Suc
            One_nat_def)
    let ?c = "Call (Search ?g ?ch 0 None)"
    let ?s1 = "s\<lparr>calls := calls s + 1, trace := trace s @ [?c]\<rparr>"
    let ?s2 = "sleep (search_delay st) ?s1"
    let ?s3 = "?s2\<lparr>calls := calls ?s2 + 1, trace := trace ?s2 @ [?c]\<rparr>"
    let ?s4 = "sleep (search_delay st) ?s3"
    let ?s5 = "?s4\<lparr>calls := calls ?s4 + 1, trace := trace ?s4 @ [?c]\<rparr>"
    have a: "search_messages (Suc (Suc (Suc n))) srv ?g ?ch 0 None s = (Page r0, ?s1)"
      using r0(1,2) by (rule search_messages_page)
    have b: "search_messages (Suc (Suc n)) srv ?g ?ch 0 None ?s2 = (Page r1, ?s3)"
      by (rule search_messages_page) (use r1 in simp_all)
    have c: "search_messages (Suc n) srv ?g ?ch 0 None ?s4 = (Page r2, ?s5)"
      by (rule search_messages_page) (use r2 in \<open>simp_all add: numeral_2_eq_2\<close>)
    have "process_target (Suc (Suc (Suc n))) srv st a tgt dry s =
          (Returned, \<lparr>max_id_cursor = None, offset = 0, empty_pages = 3\<rparr>, ?s5)"
      using h a b c r0 r1 r2
      by (simp add: process_target_def handle_page_empty MAX_EMPTY_PAGES_def
            del: search_messages.simps)
    then show ?thesis by (simp add: sleep_def)
  qed
  from p1 p2 p3 show ?thesis by blast
qed

theorem empty_pages_policy_witness:
  "process_target (Suc (Suc (Suc 0))) silent_server settings0 ''42'' dm_target False
      (new_paracord None) =
     (Returned, \<lparr>max_id_cursor = None, offset = 0, empty_pages = 3\<rparr>,
      (new_paracord None)\<lparr>calls := 3,
         trace := [Call (Search ''@me'' ''7'' 0 None), Sleep 10,
                   Call (Search ''@me'' ''7'' 0 None), Sleep 10,
                   Call (Search ''@me'' ''7'' 0 None)]\<rparr>)
   \<and> empty_pages (fst (snd (handle_page silent_server settings0 ''42'' ''7'' False
        (page [[own_msg 100 ''a'']]) \<lparr>max_id_cursor = None, offset = 0, empty_pages = 2\<rparr>
        (new_paracord None)))) = 0
   \<and> walk (Suc 0) silent_server settings0 ''42'' ''@me'' ''7'' False
        \<lparr>max_id_cursor = None, offset = 0, empty_pages = 2\<rparr> (new_paracord None) =
      (Returned, \<lparr>max_id_cursor = None, offset = 0, empty_pages = 3\<rparr>,
       (new_paracord None)\<lparr>calls := 1, trace := [Call (Search ''@me'' ''7'' 0 None)]\<rparr>)"
proof -
  let ?s = "new_paracord None"
  let ?cur = "\<lparr>max_id_cursor = None, offset = 0, empty_pages = 2\<rparr>"
  have s0: "\<not> should_stop ?s" "calls ?s = 0" "trace ?s = []"
    by (simp_all add: new_paracord_def)
  have srv: "silent_server k rq = Response (page [])" for k rq
    by (simp add: silent_server_def)
  have pg: "delivers (page [])" "messages (page []) = []" "messages (page [[own_msg 100 ''a'']]) \<noteq> []"
    by (simp_all add: delivers_def page_def)
  have g: "guild_of dm_target = ''@me''" "channel_id dm_target = ''7''"
    by (simp_all add: guild_of_def dm_target_def)
  have sd: "search_delay settings0 = 10" by (simp add: settings0_def)
  have sm: "search_messages (Suc 0) silent_server ''@me'' ''7'' (offset ?cur) (max_id_cursor ?cur) ?s
      = (Page (page []), ?s\<lparr>calls := 1, trace := [Call (Search ''@me'' ''7'' 0 None)]\<rparr>)"
    using search_messages_page [where srv = silent_server and s = "?s" and r = "page []"
        and g = "''@me''" and ch = "''7''" and ofs = 0 and mx = None and n = 0] srv pg s0
    by simp
  note p = empty_pages_policy [where srv = silent_server and s = "?s" and st = settings0
      and a = "''42''" and tgt = dm_target and dry = False and n = 0 and g = "''@me''"
      and ch = "''7''" and cur = "?cur" and r = "page []"
      and ?s1.0 = "?s\<lparr>calls := 1, trace := [Call (Search ''@me'' ''7'' 0 None)]\<rparr>"]
  note q = empty_pages_policy [where srv = silent_server and s = "?s" and st = settings0
      and a = "''42''" and dry = False and ch = "''7''" and cur = "?cur"
      and r = "page [[own_msg 100 ''a'']]"]
  from p q s0 srv pg g sd sm show ?thesis by simp
qed

subsection \<open>C8: messages that already carry the marker\<close>



subsection \<open>C9: mark-only mode\<close>

text \<open>
  Claim C9. When the mode is \<^verbatim>\<open>edit_only\<close>, processing a target sends no delete request,
  whatever the server answers and however long the loop runs: the delete requests in the
  trace afterwards are those that were there before. The same holds for a whole run of
  \<^verbatim>\<open>run_batch\<close> over all targets.
\<close>

theorem mark_only_issues_no_delete:
  "(meow_mode st = ''edit_only'' \<longrightarrow>
      filter is_delete (trace (snd (snd (process_target fuel srv st a tgt dry s))))
        = filter is_delete (trace s))
   \<and> (meow_mode (effective_settings fs ma sa) = ''edit_only'' \<longrightarrow>
      filter is_delete (trace (snd (run_batch fuel srv fs tgts a dry resume sc ans ma sa s)))
        = filter is_delete (trace s))"
proof -
  have p1: "filter is_delete (trace (snd (snd (process_target fuel srv st a tgt dry s))))
        = filter is_delete (trace s)"
    if m: "meow_mode st = ''edit_only''"
  proof -
    obtain e cur' s' where pt: "process_target fuel srv st a tgt dry s = (e, cur', s')"
      by (metis surj_pair)
    from process_target_frame [OF pt] have "emits (walk_events st (channel_id tgt) dry) s s'"
      by simp
    then have "filter is_delete (trace s') = filter is_delete (trace s)"
      by (rule emits_filter) (use m no_delete_when_edit_only in blast)
    with pt show ?thesis by simp
  qed
  have p2: "filter is_delete (trace (snd (run_batch fuel srv fs tgts a dry resume sc ans ma sa s)))
        = filter is_delete (trace s)"
    if m: "meow_mode (effective_settings fs ma sa) = ''edit_only''"
  proof -
    have "emits (run_events (effective_settings fs ma sa) dry) s
       (snd (run_batch fuel srv fs tgts a dry resume sc ans ma sa s))"
      using run_batch_frame by blast
    then show ?thesis
      by (rule emits_filter) (use m no_delete_when_edit_only in \<open>auto simp: run_events_def\<close>)
  qed
  from p1 p2 show ?thesis by blast
qed

text \<open>
  One page of three own messages, then empty pages: in mark-only mode the three messages are
  edited and nothing is deleted.
\<close>

theorem mark_only_issues_no_delete_witness:
  "filter is_delete (trace (snd (snd (process_target 4 one_page_server
      (settings0\<lparr>meow_mode := ''edit_only''\<rparr>) ''42'' dm_target False (new_paracord None))))) = []
   \<and> filter is_delete (trace (snd (run_batch 4 one_page_server settings0 [dm_target] ''42'' False
      False True [] (Some ''edit_only'') None (new_paracord None)))) = []
   \<and> filter is_edit (trace (snd (snd (process_target 4 one_page_server
      (settings0\<lparr>meow_mode := ''edit_only''\<rparr>) ''42'' dm_target False (new_paracord None)))))
       = [Call (Edit ''7'' 300 MEOW_TEXT), Call (Edit ''7'' 200 MEOW_TEXT),
          Call (Edit ''7'' 100 MEOW_TEXT)]"
proof -
  have m: "meow_mode (settings0\<lparr>meow_mode := ''edit_only''\<rparr>) = ''edit_only''"
    "meow_mode (effective_settings settings0 (Some ''edit_only'') None) = ''edit_only''"
    by (simp_all add: effective_settings_def)
  have t: "trace (new_paracord None) = []" by (simp add: new_paracord_def)
  have e: "filter is_edit (trace (snd (snd (process_target 4 one_page_server
      (settings0\<lparr>meow_mode := ''edit_only''\<rparr>) ''42'' dm_target False (new_paracord None)))))
       = [Call (Edit ''7'' 300 MEOW_TEXT), Call (Edit ''7'' 200 MEOW_TEXT),
          Call (Edit ''7'' 100 MEOW_TEXT)]"
    by code_simp
  from mark_only_issues_no_delete [where st = "settings0\<lparr>meow_mode := ''edit_only''\<rparr>"
      and fs = settings0 and ma = "Some ''edit_only''" and sa = None and s = "new_paracord None"]
    m t e
  show ?thesis by simp
qed

subsection \<open>C10: dry run\<close>

text \<open>
  Claim C10. In a dry run, processing a target sends no edit and no delete request, and
  leaves the counters \<open>edited\<close>, \<open>deleted\<close>, \<open>skipped\<close>, \<open>failed\<close> and \<open>ghosts\<close> as they
  were. A page with eligible messages is only previewed: the cursor becomes the smallest
  eligible id minus one, the offset 0, the engine sleeps \<open>search_delay\<close>, and the loop goes
  on from that cursor. So, when the first search of a target returns eligible messages, the
  requests of the target start with that search, the sleep, and the search with \<open>max_id\<close>
  equal to the smallest eligible id minus one and offset 0.
\<close>

theorem dry_run_issues_no_action:
  "filter is_edit (trace (snd (snd (process_target fuel srv st a tgt True s)))) = filter is_edit (trace s)
   \<and> filter is_delete (trace (snd (snd (process_target fuel srv st a tgt True s)))) = filter is_delete (trace s)
   \<and> edited (stats (snd (snd (process_target fuel srv st a tgt True s)))) = edited (stats s)
   \<and> deleted (stats (snd (snd (process_target fuel srv st a tgt True s)))) = deleted (stats s)
   \<and> skipped (stats (snd (snd (process_target fuel srv st a tgt True s)))) = skipped (stats s)
   \<and> failed (stats (snd (snd (process_target fuel srv st a tgt True s)))) = failed (stats s)
   \<and> ghosts (stats (snd (snd (process_target fuel srv st a tgt True s)))) = ghosts (stats s)
   \<and> (eligible st a (messages r) \<noteq> [] \<longrightarrow>
        handle_page srv st a ch True r cur s =
          (Continue,
           cur\<lparr>empty_pages := 0,
               max_id_cursor := Some (Min (msg_id ` set (eligible st a (messages r))) - 1),
               offset := 0\<rparr>,
           sleep (search_delay st) s))
   \<and> (search_messages (Suc n) srv g ch (offset cur) (max_id_cursor cur) s = (Page r, s1) \<and>
      \<not> should_stop s \<and> eligible st a (messages r) \<noteq> [] \<longrightarrow>
        walk (Suc n) srv st a g ch True cur s =
          walk n srv st a g ch True
            (cur\<lparr>empty_pages := 0,
                 max_id_cursor := Some (Min (msg_id ` set (eligible st a (messages r))) - 1),
                 offset := 0\<rparr>)
            (sleep (search_delay st) s1))
   \<and> (\<not> should_stop s \<and>
      srv (calls s) (Search (guild_of tgt) (channel_id tgt) 0 None) = Response r \<and> delivers r \<and>
      eligible st a (messages r) \<noteq> [] \<longrightarrow>
        (\<exists>evs. trace (snd (snd (process_target (Suc (Suc n)) srv st a tgt True s))) =
           trace s @
             [Call (Search (guild_of tgt) (channel_id tgt) 0 None), Sleep (search_delay st),
              Call (Search (guild_of tgt) (channel_id tgt) 0
                (Some (Min (msg_id ` set (eligible st a (messages r))) - 1)))] @ evs))"
proof -
  let ?m = "Min (msg_id ` set (eligible st a (messages r))) - 1"
  obtain e cur' s' where pt: "process_target fuel srv st a tgt True s = (e, cur', s')"
    by (metis surj_pair)
  from process_target_frame [OF pt]
  have em: "emits (walk_events st (channel_id tgt) True) s s'" and so: "same_outcomes s s'"
    by simp_all
  have a1: "filter is_edit (trace s') = filter is_edit (trace s)"
    using em by (rule emits_filter) (use no_action_when_dry_run in blast)
  have a2: "filter is_delete (trace s') = filter is_delete (trace s)"
    using em by (rule emits_filter) (use no_action_when_dry_run in blast)
  have p1: "filter is_edit (trace (snd (snd (process_target fuel srv st a tgt True s)))) = filter is_edit (trace s)
   \<and> filter is_delete (trace (snd (snd (process_target fuel srv st a tgt True s)))) = filter is_delete (trace s)
   \<and> edited (stats (snd (snd (process_target fuel srv st a tgt True s)))) = edited (stats s)
   \<and> deleted (stats (snd (snd (process_target fuel srv st a tgt True s)))) = deleted (stats s)
   \<and> skipped (stats (snd (snd (process_target fuel srv st a tgt True s)))) = skipped (stats s)
   \<and> failed (stats (snd (snd (process_target fuel srv st a tgt True s)))) = failed (stats s)
   \<and> ghosts (stats (snd (snd (process_target fuel srv st a tgt True s)))) = ghosts (stats s)"
    using a1 a2 so pt by (simp add: same_outcomes_def)
  have p2: "handle_page srv st a ch' True r cur' s' =
          (Continue, cur'\<lparr>empty_pages := 0, max_id_cursor := Some ?m, offset := 0\<rparr>,
           sleep (search_delay st) s')"
    if "eligible st a (messages r) \<noteq> []" for ch' cur' s'
    using that by (simp add: handle_page_dry_run min_id_def)
  have p3: "walk (Suc n) srv st a g ch True cur s =
          walk n srv st a g ch True (cur\<lparr>empty_pages := 0, max_id_cursor := Some ?m, offset := 0\<rparr>)
            (sleep (search_delay st) s1)"
    if h: "search_messages (Suc n) srv g ch (offset cur) (max_id_cursor cur) s = (Page r, s1) \<and>
      \<not> should_stop s \<and> eligible st a (messages r) \<noteq> []"
    using h p2 [of ch cur s1] by (intro walk_step) simp_all
  have p4: "\<exists>evs. trace (snd (snd (process_target (Suc (Suc n)) srv st a tgt True s))) =
           trace s @
             [Call (Search (guild_of tgt) (channel_id tgt) 0 None), Sleep (search_delay st),
              Call (Search (guild_of tgt) (channel_id tgt) 0 (Some ?m))] @ evs"
    if h: "\<not> should_stop s \<and>
      srv (calls s) (Search (guild_of tgt) (channel_id tgt) 0 None) = Response r \<and> delivers r \<and>
      eligible st a (messages r) \<noteq> []"
  proof -
    let ?g = "guild_of tgt" and ?ch = "channel_id tgt"
    let ?cur0 = "\<lparr>max_id_cursor = None, offset = 0, empty_pages = 0\<rparr>"
    let ?s1 = "s\<lparr>calls := calls s + 1, trace := trace s @ [Call (Search ?g ?ch 0 None)]\<rparr>"
    let ?cur1 = "?cur0\<lparr>empty_pages := 0, max_id_cursor := Some ?m, offset := 0\<rparr>"
    let ?s2 = "sleep (search_delay st) ?s1"
    have sm: "search_messages (Suc (Suc n)) srv ?g ?ch (offset ?cur0) (max_id_cursor ?cur0) s
        = (Page r, ?s1)"
      using h search_messages_page [of srv s ?g ?ch 0 None r "Suc n"] by simp
    have hp: "handle_page srv st a ?ch True r ?cur0 ?s1 = (Continue, ?cur1, ?s2)"
      using h p2 [of ?ch ?cur0 ?s1] by simp
    have ns: "\<not> should_stop s" "\<not> should_stop ?s2" using h by simp_all
    have "walk (Suc (Suc n)) srv st a ?g ?ch True ?cur0 s = walk (Suc n) srv st a ?g ?ch True ?cur1 ?s2"
      using sm ns(1) hp by (rule walk_step)
    moreover from walk_first_call [OF ns(2), of n srv st a ?g ?ch True ?cur1]
    obtain evs where "trace (snd (snd (walk (Suc n) srv st a ?g ?ch True ?cur1 ?s2)))
        = trace ?s2 @ Call (Search ?g ?ch (offset ?cur1) (max_id_cursor ?cur1)) # evs" by blast
    ultimately show ?thesis by (simp add: process_target_def)
  qed
  from p1 p2 [of ch cur s] p3 p4 show ?thesis by blast
qed

text \<open>
  One page of three own messages, then empty pages: the dry run searches, sleeps, and
  searches on below the oldest of the three, and sends nothing else.
\<close>

theorem dry_run_issues_no_action_witness:
  "handle_page one_page_server settings0 ''42'' ''7'' True
      (page [[own_msg 300 ''a''], [own_msg 200 ''b''], [own_msg 100 ''c'']])
      \<lparr>max_id_cursor = None, offset = 0, empty_pages = 0\<rparr> (new_paracord None) =
     (Continue, \<lparr>max_id_cursor = Some 99, offset = 0, empty_pages = 0\<rparr>,
      sleep 10 (new_paracord None))
   \<and> filter is_edit (trace (snd (snd (process_target 4 one_page_server settings0 ''42'' dm_target
        True (new_paracord None))))) = []
   \<and> filter is_delete (trace (snd (snd (process_target 4 one_page_server settings0 ''42'' dm_target
        True (new_paracord None))))) = []
   \<and> (\<exists>evs. trace (snd (snd (process_target (Suc (Suc 2)) one_page_server settings0 ''42''
        dm_target True (new_paracord None)))) =
          [Call (Search ''@me'' ''7'' 0 None), Sleep 10, Call (Search ''@me'' ''7'' 0 (Some 99))]
            @ evs)
   \<and> process_target 4 one_page_server settings0 ''42'' dm_target True (new_paracord None) =
      (Returned, \<lparr>max_id_cursor = Some 99, offset = 0, empty_pages = 3\<rparr>,
       (new_paracord None)\<lparr>calls := 4,
          trace := [Call (Search ''@me'' ''7'' 0 None), Sleep 10,
                    Call (Search ''@me'' ''7'' 0 (Some 99)), Sleep 10,
                    Call (Search ''@me'' ''7'' 0 (Some 99)), Sleep 10,
                    Call (Search ''@me'' ''7'' 0 (Some 99))]\<rparr>)"
proof -
  let ?r = "page [[own_msg 300 ''a''], [own_msg 200 ''b''], [own_msg 100 ''c'']]"
  let ?s = "new_paracord None"
  have el: "eligible settings0 ''42'' (messages ?r) = [own_msg 300 ''a'', own_msg 200 ''b'', own_msg 100 ''c'']"
    by (simp add: eligible_def all_hit_messages_def page_def own_msg_def settings0_def MEOW_TEXT_def)
  have mn: "Min (msg_id ` set (eligible settings0 ''42'' (messages ?r))) = 100"
    unfolding el by (simp add: own_msg_def)
  have t: "trace ?s = []" "\<not> should_stop ?s" "calls ?s = 0" by (simp_all add: new_paracord_def)
  have sd: "search_delay settings0 = 10" by (simp add: settings0_def)
  have g: "guild_of dm_target = ''@me''" "channel_id dm_target = ''7''"
    by (simp_all add: guild_of_def dm_target_def)
  have srv: "one_page_server 0 (Search ''@me'' ''7'' 0 None) = Response ?r" "delivers ?r"
    by (simp_all add: one_page_server_def delivers_def page_def)
  have full: "process_target 4 one_page_server settings0 ''42'' dm_target True ?s =
      (Returned, \<lparr>max_id_cursor = Some 99, offset = 0, empty_pages = 3\<rparr>,
       ?s\<lparr>calls := 4,
          trace := [Call (Search ''@me'' ''7'' 0 None), Sleep 10,
                    Call (Search ''@me'' ''7'' 0 (Some 99)), Sleep 10,
                    Call (Search ''@me'' ''7'' 0 (Some 99)), Sleep 10,
                    Call (Search ''@me'' ''7'' 0 (Some 99))]\<rparr>)"
    by code_simp
  note a = dry_run_issues_no_action [where st = settings0 and a = "''42''" and r = "?r"
      and s = "?s" and srv = one_page_server and tgt = dm_target and fuel = 4
      and ch = "''7''" and cur = "\<lparr>max_id_cursor = None, offset = 0, empty_pages = 0\<rparr>"
      and n = 2]
  have c1: "filter is_edit (trace (snd (snd (process_target 4 one_page_server settings0 ''42''
        dm_target True ?s)))) = []"
    using a [THEN conjunct1] t by simp
  have c2: "filter is_delete (trace (snd (snd (process_target 4 one_page_server settings0 ''42''
        dm_target True ?s)))) = []"
    using a [THEN conjunct2, THEN conjunct1] t by simp
  have c3: "handle_page one_page_server settings0 ''42'' ''7'' True ?r
      \<lparr>max_id_cursor = None, offset = 0, empty_pages = 0\<rparr> ?s =
     (Continue, \<lparr>max_id_cursor = Some 99, offset = 0, empty_pages = 0\<rparr>, sleep 10 ?s)"
    using a [THEN conjunct2, THEN conjunct2, THEN conjunct2, THEN conjunct2, THEN conjunct2,
        THEN conjunct2, THEN conjunct2, THEN conjunct1] el mn sd
    by simp
  have c4: "\<exists>evs. trace (snd (snd (process_target (Suc (Suc 2)) one_page_server settings0 ''42''
        dm_target True ?s))) =
          [Call (Search ''@me'' ''7'' 0 None), Sleep 10, Call (Search ''@me'' ''7'' 0 (Some 99))]
            @ evs"
    using a [THEN conjunct2, THEN conjunct2, THEN conjunct2, THEN conjunct2, THEN conjunct2,
        THEN conjunct2, THEN conjunct2, THEN conjunct2, THEN conjunct2] el mn sd t g srv
    by simp
  from c1 c2 c3 c4 full show ?thesis by blast
qed

end
